theory Spec2Isabelle
  imports Complex_Main
begin

section \<open>AquariumManager: the simulation engine and its store\<close>

text \<open>
  A shallow embedding of \<^verbatim>\<open>app/models.py\<close>, \<^verbatim>\<open>app/database.py\<close> and
  \<^verbatim>\<open>app/simulation.py\<close>.

  Conventions of the model:
  \<^item> a Python \<^verbatim>\<open>float\<close> is a \<open>real\<close>: the formulas of the engine are read as exact
    arithmetic. Where a property is about the rounding itself (the temperature line of
    \<^verbatim>\<open>tick\<close>), that line is given a second time in binary64 arithmetic;
  \<^item> a timezone-aware \<^verbatim>\<open>datetime\<close> is an \<open>int\<close>, the number of microseconds since the
    epoch, and a \<^verbatim>\<open>timedelta\<close> is an \<open>int\<close> number of microseconds (the resolution of
    both classes). The range limits of the two classes are the predicates \<open>datetime_ok\<close>
    and \<open>timedelta_ok\<close>; \<^verbatim>\<open>add_task\<close>, which computes a timestamp from an argument of
    its caller, checks them as the library does;
  \<^item> every call of \<^verbatim>\<open>datetime.now(timezone.utc)\<close> is a parameter \<open>now\<close> of the operation;
  \<^item> an exception is a value of type \<open>error\<close> on the left of a sum.
\<close>

subsection \<open>Time\<close>

type_synonym datetime = int
type_synonym timedelta = int

definition timedelta_minutes :: "int \<Rightarrow> timedelta" where
  "timedelta_minutes n = n * 60000000"

definition total_seconds :: "timedelta \<Rightarrow> real" where
  "total_seconds d = real_of_int d / 1000000"

text \<open>
  The constructor of \<^verbatim>\<open>timedelta\<close> raises \<^verbatim>\<open>OverflowError\<close> when the number of whole
  days is beyond 999999999 in magnitude, and the arithmetic of \<^verbatim>\<open>datetime\<close> raises it
  when the result is before 0001-01-01T00:00:00 or after 9999-12-31T23:59:59.999999.
\<close>

definition timedelta_ok :: "timedelta \<Rightarrow> bool" where
  "timedelta_ok d = (- 999999999 \<le> d div 86400000000 \<and> d div 86400000000 \<le> 999999999)"

definition datetime_ok :: "datetime \<Rightarrow> bool" where
  "datetime_ok t = (- 62135596800000000 \<le> t \<and> t \<le> 253402300799999999)"

subsection \<open>The entities of models.py\<close>

record aquarium =
  aq_id :: "int option"
  aq_name :: string
  target_temperature :: real
  current_temperature :: real
  cleanliness :: real
  last_cleaned_at :: datetime

record fish =
  fish_id :: "int option"
  fish_aquarium_id :: int
  fish_name :: string
  species :: string
  hunger :: real
  health :: real
  created_at :: datetime

record task =
  task_id :: "int option"
  task_aquarium_id :: int
  kind :: string
  interval_minutes :: int
  last_run_at :: datetime

subsection \<open>Errors\<close>

text \<open>
  \<open>IntegrityError\<close> is \<^verbatim>\<open>sqlite3.IntegrityError\<close>, raised by an insert whose
  \<^verbatim>\<open>aquarium_id\<close> names no aquarium row (the schema declares the foreign keys and
  \<^verbatim>\<open>_configure\<close> switches their enforcement on). \<open>RuntimeError\<close> is the one
  \<^verbatim>\<open>raise\<close> statement of the engine. \<open>OverflowError\<close> is raised by the library: by
  \<^verbatim>\<open>datetime\<close> and \<^verbatim>\<open>timedelta\<close> for a value out of range, and by \<^verbatim>\<open>sqlite3\<close> for an
  integer parameter that does not fit in 64 bits. \<open>NotFoundError\<close> is the kind named in
  the error design of the specification; no statement of the source constructs it.
\<close>

datatype error = IntegrityError | RuntimeError | OverflowError | NotFoundError

subsection \<open>The store (database.py)\<close>

text \<open>
  Each table is the list of its rows, a row being the entity that the row constructors
  of \<^verbatim>\<open>database.py\<close> build from it (its identity is never \<open>None\<close>). The three
  \<open>_seq\<close> fields are the AUTOINCREMENT counters of SQLite, and \<open>commits\<close> counts the
  calls of \<^verbatim>\<open>self._connection.commit()\<close>, that is, the write transactions.
\<close>

record database =
  aquarium_rows :: "aquarium list"
  fish_rows :: "fish list"
  task_rows :: "task list"
  aquarium_seq :: int
  fish_seq :: int
  task_seq :: int
  commits :: nat

definition next_rowid :: "int \<Rightarrow> int option list \<Rightarrow> int" where
  "next_rowid seq ids = fold max (List.map_filter (\<lambda>i. i) ids) seq + 1"

definition has_aquarium_row :: "int \<Rightarrow> database \<Rightarrow> bool" where
  "has_aquarium_row k d = (Some k \<in> set (map aq_id (aquarium_rows d)))"

definition db_upsert_aquarium :: "aquarium \<Rightarrow> database \<Rightarrow> aquarium \<times> database" where
  "db_upsert_aquarium a d =
     (case aq_id a of
        None \<Rightarrow>
          (let k = next_rowid (aquarium_seq d) (map aq_id (aquarium_rows d));
               stored = a\<lparr>aq_id := Some k\<rparr>
           in (stored, d\<lparr>aquarium_rows := aquarium_rows d @ [stored],
                         aquarium_seq := k,
                         commits := commits d + 1\<rparr>))
      | Some k \<Rightarrow>
          (a, d\<lparr>aquarium_rows := map (\<lambda>r. if aq_id r = Some k then a else r) (aquarium_rows d),
                commits := commits d + 1\<rparr>))"

definition db_insert_fish :: "fish \<Rightarrow> database \<Rightarrow> error + fish \<times> database" where
  "db_insert_fish f d =
     (if \<not> has_aquarium_row (fish_aquarium_id f) d then Inl IntegrityError
      else
        (let k = next_rowid (fish_seq d) (map fish_id (fish_rows d));
             stored = f\<lparr>fish_id := Some k\<rparr>
         in Inr (stored, d\<lparr>fish_rows := fish_rows d @ [stored],
                           fish_seq := k,
                           commits := commits d + 1\<rparr>)))"

definition update_fish_row :: "fish \<Rightarrow> fish list \<Rightarrow> fish list" where
  "update_fish_row f rows =
     (case fish_id f of
        None \<Rightarrow> rows
      | Some k \<Rightarrow>
          map (\<lambda>r. if fish_id r = Some k then r\<lparr>hunger := hunger f, health := health f\<rparr> else r)
            rows)"

definition db_update_fish :: "fish list \<Rightarrow> database \<Rightarrow> database" where
  "db_update_fish fishes d =
     d\<lparr>fish_rows := fold update_fish_row fishes (fish_rows d), commits := commits d + 1\<rparr>"

definition db_upsert_task :: "task \<Rightarrow> database \<Rightarrow> error + task \<times> database" where
  "db_upsert_task t d =
     (case task_id t of
        None \<Rightarrow>
          (if \<not> has_aquarium_row (task_aquarium_id t) d then Inl IntegrityError
           else
             (let k = next_rowid (task_seq d) (map task_id (task_rows d));
                  stored = t\<lparr>task_id := Some k\<rparr>
              in Inr (stored, d\<lparr>task_rows := task_rows d @ [stored],
                                task_seq := k,
                                commits := commits d + 1\<rparr>)))
      | Some k \<Rightarrow>
          Inr (t, d\<lparr>task_rows :=
                      map (\<lambda>r. if task_id r = Some k
                                then r\<lparr>interval_minutes := interval_minutes t,
                                       last_run_at := last_run_at t\<rparr>
                                else r) (task_rows d),
                    commits := commits d + 1\<rparr>))"

definition db_update_task_timestamp :: "int \<Rightarrow> datetime \<Rightarrow> database \<Rightarrow> database" where
  "db_update_task_timestamp k timestamp d =
     d\<lparr>task_rows :=
         map (\<lambda>r. if task_id r = Some k then r\<lparr>last_run_at := timestamp\<rparr> else r) (task_rows d),
       commits := commits d + 1\<rparr>"

definition db_refresh_aquarium_environment ::
  "aquarium \<Rightarrow> real \<Rightarrow> real \<Rightarrow> database \<Rightarrow> aquarium \<times> database" where
  "db_refresh_aquarium_environment a temperature_delta cleanliness_delta d =
     (let current = current_temperature a + temperature_delta;
          clean = max 0 (min 100 (cleanliness a + cleanliness_delta))
      in (a\<lparr>current_temperature := current, cleanliness := clean\<rparr>,
          d\<lparr>aquarium_rows :=
               map (\<lambda>r. if aq_id a \<noteq> None \<and> aq_id r = aq_id a
                         then r\<lparr>current_temperature := current, cleanliness := clean\<rparr>
                         else r) (aquarium_rows d),
             commits := commits d + 1\<rparr>))"

definition db_set_aquarium_cleaned :: "int \<Rightarrow> datetime \<Rightarrow> database \<Rightarrow> database" where
  "db_set_aquarium_cleaned k timestamp d =
     d\<lparr>aquarium_rows :=
         map (\<lambda>r. if aq_id r = Some k
                   then r\<lparr>cleanliness := 100, last_cleaned_at := timestamp\<rparr>
                   else r) (aquarium_rows d),
       commits := commits d + 1\<rparr>"

subsection \<open>The engine state (simulation.py)\<close>

text \<open>
  The engine hands its \<^verbatim>\<open>Task\<close> objects to its callers (\<^verbatim>\<open>add_task\<close>,
  \<^verbatim>\<open>tasks_for\<close>, \<^verbatim>\<open>due_tasks\<close>) and \<^verbatim>\<open>mark_task_done\<close> mutates the object it is
  given, so a task is held by reference: \<open>heap\<close> is the store of the \<^verbatim>\<open>Task\<close> objects,
  a reference is an index into it, and the cache \<open>tasks\<close> holds references. Aquariums and
  fish are reached through the engine's own collections only and are held by value.
\<close>

type_synonym ref = nat

record engine =
  db :: database
  aquariums :: "aquarium list"
  fish :: "int \<rightharpoonup> fish list"
  tasks :: "int \<rightharpoonup> ref list"
  last_tick :: datetime
  heap :: "task list"

definition deref :: "task list \<Rightarrow> ref \<Rightarrow> task option" where
  "deref h r = (if r < length h then Some (h ! r) else None)"

definition fish_for :: "int \<Rightarrow> engine \<Rightarrow> fish list" where
  "fish_for k s = (case fish s k of None \<Rightarrow> [] | Some fs \<Rightarrow> fs)"

definition tasks_for :: "int \<Rightarrow> engine \<Rightarrow> ref list" where
  "tasks_for k s = (case tasks s k of None \<Rightarrow> [] | Some rs \<Rightarrow> rs)"

subsection \<open>tick\<close>

definition elapsed_minutes :: "datetime \<Rightarrow> engine \<Rightarrow> real" where
  "elapsed_minutes now s = total_seconds (now - last_tick s) / 60"

definition adjustment_ratio :: "real \<Rightarrow> real" where
  "adjustment_ratio minutes = 1 - exp (- minutes / 18)"

definition tick_aquarium :: "real \<Rightarrow> aquarium \<Rightarrow> aquarium" where
  "tick_aquarium minutes a =
     a\<lparr>current_temperature :=
         current_temperature a
           + (target_temperature a - current_temperature a) * adjustment_ratio minutes,
       cleanliness := max 0 (cleanliness a - minutes * 0.18)\<rparr>"

text \<open>
  The body of the inner loop. Its aquarium argument is the aquarium as the outer loop
  has just updated it, and the hunger it tests is the hunger it has just assigned.
\<close>

definition tick_penalty :: "real \<Rightarrow> aquarium \<Rightarrow> real \<Rightarrow> real" where
  "tick_penalty minutes a h =
     (let p0 = 0;
          p1 = (if h > 70 then p0 + (h - 70) * 0.02 * minutes else p0);
          temperature_gap = \<bar>current_temperature a - target_temperature a\<bar>;
          p2 = (if temperature_gap > 2.5 then p1 + (temperature_gap - 2.5) * 0.5 * minutes
                else p1);
          p3 = (if cleanliness a < 40 then p2 + (40 - cleanliness a) * 0.01 * minutes else p2)
      in p3)"

definition tick_fish :: "real \<Rightarrow> aquarium \<Rightarrow> fish \<Rightarrow> fish" where
  "tick_fish minutes a f =
     (let h = min 100 (hunger f + minutes * 0.45);
          penalty = tick_penalty minutes a h
      in f\<lparr>hunger := h, health := max 10 (min 100 (health f - penalty))\<rparr>)"

fun tick_loop ::
  "real \<Rightarrow> aquarium list \<Rightarrow> (int \<rightharpoonup> fish list) \<Rightarrow> database
     \<Rightarrow> aquarium list \<times> (int \<rightharpoonup> fish list) \<times> database" where
  "tick_loop minutes [] fm d = ([], fm, d)"
| "tick_loop minutes (a # rest) fm d =
     (case aq_id a of
        None \<Rightarrow>
          (case tick_loop minutes rest fm d of (rest', fm', d') \<Rightarrow> (a # rest', fm', d'))
      | Some k \<Rightarrow>
          (let a' = tick_aquarium minutes a;
               fishes = map (tick_fish minutes a') (case fm k of None \<Rightarrow> [] | Some fs \<Rightarrow> fs);
               fm1 = (case fm k of None \<Rightarrow> fm | Some fs \<Rightarrow> fm(k \<mapsto> fishes));
               d1 = db_update_fish fishes d;
               d2 = snd (db_upsert_aquarium a' d1)
           in case tick_loop minutes rest fm1 d2 of (rest', fm', d') \<Rightarrow> (a' # rest', fm', d')))"

definition tick :: "datetime \<Rightarrow> engine \<Rightarrow> engine" where
  "tick now s =
     (if now - last_tick s \<le> 0 then s
      else
        (case tick_loop (elapsed_minutes now s) (aquariums s) (fish s) (db s) of
           (as', fm', d') \<Rightarrow>
             s\<lparr>db := d', aquariums := as', fish := fm', last_tick := now\<rparr>))"

subsection \<open>The temperature line of tick in binary64\<close>

text \<open>
  The statements
  \<^verbatim>\<open>minutes = elapsed.total_seconds() / 60.0\<close>,
  \<^verbatim>\<open>adjustment_ratio = 1.0 - math.exp(-minutes / 18.0)\<close> and
  \<^verbatim>\<open>aquarium.current_temperature += (aquarium.target_temperature - aquarium.current_temperature) * adjustment_ratio\<close>
  as the interpreter runs them: every operation yields the binary64 number nearest to
  its exact result, ties going to the even significand. \<open>fl\<close> is that rounding, for a
  result inside the range of binary64 (no overflow to infinity). \<open>binade x\<close> is the
  exponent of \<open>x\<close> and \<open>ulp x\<close> the distance between neighbouring binary64 numbers
  there, the subnormal numbers included. \<^verbatim>\<open>math.exp\<close> is the function of the C library,
  read here as correctly rounded; the results below use of it only that its value at an
  argument between -1/16 and -1/32 lies between 15/16 and 1.
\<close>

definition round_half_even :: "real \<Rightarrow> int" where
  "round_half_even y =
     (let n = \<lfloor>y\<rfloor>; d = y - of_int n
      in if d < 1 / 2 then n else if 1 / 2 < d then n + 1 else if even n then n else n + 1)"

definition binade :: "real \<Rightarrow> int" where
  "binade x = \<lfloor>log 2 \<bar>x\<bar>\<rfloor>"

definition ulp :: "real \<Rightarrow> real" where
  "ulp x = 2 powr of_int (max (binade x) (- 1022) - 52)"

definition fl :: "real \<Rightarrow> real" where
  "fl x = (if x = 0 then 0 else of_int (round_half_even (x / ulp x)) * ulp x)"

definition math_exp :: "real \<Rightarrow> real" where
  "math_exp x = fl (exp x)"

definition minutes_double :: "timedelta \<Rightarrow> real" where
  "minutes_double elapsed = fl (fl (real_of_int elapsed / 1000000) / 60)"

definition adjustment_ratio_double :: "real \<Rightarrow> real" where
  "adjustment_ratio_double minutes = fl (1 - math_exp (fl (- minutes / 18)))"

definition temperature_double :: "real \<Rightarrow> real \<Rightarrow> real \<Rightarrow> real" where
  "temperature_double minutes current target =
     fl (current + fl (fl (target - current) * adjustment_ratio_double minutes))"

subsection \<open>Commands on one aquarium\<close>

definition feed_one :: "fish \<Rightarrow> fish" where
  "feed_one f = f\<lparr>hunger := max 0 (hunger f - 45), health := min 100 (health f + 8)\<rparr>"

definition feed_fish :: "int \<Rightarrow> engine \<Rightarrow> error + engine" where
  "feed_fish aquarium_id s =
     (let fishes = (case fish s aquarium_id of None \<Rightarrow> [] | Some fs \<Rightarrow> fs);
          updated = map feed_one fishes
      in if updated \<noteq> []
         then Inr (s\<lparr>db := db_update_fish updated (db s),
                     fish := (fish s)(aquarium_id \<mapsto> updated)\<rparr>)
         else Inr s)"

text \<open>
  \<^verbatim>\<open>clean_aquarium\<close>, \<^verbatim>\<open>adjust_temperature\<close> and \<^verbatim>\<open>register_temperature\<close> share one
  loop: the first aquarium of the list whose identity is the argument is updated and
  written to the store, and \<^verbatim>\<open>break\<close> ends the loop.
\<close>

fun first_match ::
  "int \<Rightarrow> (aquarium \<Rightarrow> database \<Rightarrow> aquarium \<times> database) \<Rightarrow> aquarium list \<Rightarrow> database
     \<Rightarrow> aquarium list \<times> database" where
  "first_match k body [] d = ([], d)"
| "first_match k body (a # rest) d =
     (if aq_id a = Some k
      then (case body a d of (a', d') \<Rightarrow> (a' # rest, d'))
      else (case first_match k body rest d of (rest', d') \<Rightarrow> (a # rest', d')))"

definition clean_aquarium :: "int \<Rightarrow> datetime \<Rightarrow> engine \<Rightarrow> error + engine" where
  "clean_aquarium aquarium_id now s =
     (case first_match aquarium_id
             (\<lambda>a d. (a\<lparr>cleanliness := 100, last_cleaned_at := now\<rparr>,
                      db_set_aquarium_cleaned aquarium_id now d))
             (aquariums s) (db s) of
        (as', d') \<Rightarrow> Inr (s\<lparr>db := d', aquariums := as'\<rparr>))"

definition adjust_temperature :: "int \<Rightarrow> real \<Rightarrow> engine \<Rightarrow> error + engine" where
  "adjust_temperature aquarium_id target s =
     (case first_match aquarium_id
             (\<lambda>a d. (let a' = a\<lparr>target_temperature := target\<rparr>
                      in (a', snd (db_upsert_aquarium a' d))))
             (aquariums s) (db s) of
        (as', d') \<Rightarrow> Inr (s\<lparr>db := d', aquariums := as'\<rparr>))"

definition register_temperature :: "int \<Rightarrow> real \<Rightarrow> engine \<Rightarrow> error + engine" where
  "register_temperature aquarium_id current s =
     (case first_match aquarium_id
             (\<lambda>a d. (let a' = a\<lparr>current_temperature := current\<rparr>
                      in (a', snd (db_upsert_aquarium a' d))))
             (aquariums s) (db s) of
        (as', d') \<Rightarrow> Inr (s\<lparr>db := d', aquariums := as'\<rparr>))"

subsection \<open>Creation\<close>

definition create_aquarium ::
  "string \<Rightarrow> real \<Rightarrow> datetime \<Rightarrow> engine \<Rightarrow> error + aquarium \<times> engine" where
  "create_aquarium name target now s =
     (let a = \<lparr>aq_id = None, aq_name = name, target_temperature = target,
               current_temperature = target, cleanliness = 90, last_cleaned_at = now\<rparr>
      in case db_upsert_aquarium a (db s) of
           (stored, d') \<Rightarrow>
             (case aq_id stored of
                None \<Rightarrow> Inl RuntimeError
              | Some k \<Rightarrow>
                  Inr (stored, s\<lparr>db := d',
                                  aquariums := aquariums s @ [stored],
                                  fish := (fish s)(k \<mapsto> []),
                                  tasks := (tasks s)(k \<mapsto> [])\<rparr>)))"

definition create_fish ::
  "int \<Rightarrow> string \<Rightarrow> string \<Rightarrow> datetime \<Rightarrow> engine \<Rightarrow> error + fish \<times> engine" where
  "create_fish aquarium_id name sp now s =
     (let f = \<lparr>fish_id = None, fish_aquarium_id = aquarium_id, fish_name = name, species = sp,
               hunger = 35, health = 95, created_at = now\<rparr>
      in case db_insert_fish f (db s) of
           Inl e \<Rightarrow> Inl e
         | Inr (stored, d') \<Rightarrow>
             (let fishes = (case fish s aquarium_id of None \<Rightarrow> [] | Some fs \<Rightarrow> fs)
              in Inr (stored, s\<lparr>db := d',
                                 fish := (fish s)(aquarium_id \<mapsto> fishes @ [stored])\<rparr>)))"

subsection \<open>Tasks\<close>

text \<open>
  \<^verbatim>\<open>add_task\<close> returns the object it has appended to the cache: the result is the
  reference of the new object in the heap. The first statement builds the task and with
  it \<^verbatim>\<open>now - timedelta(minutes=interval_minutes)\<close>; when the constructor of the duration
  or the subtraction raises, nothing has been stored yet.
\<close>

definition add_task :: "int \<Rightarrow> string \<Rightarrow> int \<Rightarrow> datetime \<Rightarrow> engine \<Rightarrow> error + ref \<times> engine" where
  "add_task aquarium_id knd interval now s =
     (if \<not> timedelta_ok (timedelta_minutes interval) then Inl OverflowError
      else if \<not> datetime_ok (now - timedelta_minutes interval) then Inl OverflowError
      else
        (let t = \<lparr>task_id = None, task_aquarium_id = aquarium_id, kind = knd,
                  interval_minutes = interval,
                  last_run_at = now - timedelta_minutes interval\<rparr>
         in case db_upsert_task t (db s) of
              Inl e \<Rightarrow> Inl e
            | Inr (stored, d') \<Rightarrow>
                (let r = length (heap s);
                     rs = (case tasks s aquarium_id of None \<Rightarrow> [] | Some rs \<Rightarrow> rs)
                 in Inr (r, s\<lparr>db := d',
                               tasks := (tasks s)(aquarium_id \<mapsto> rs @ [r]),
                               heap := heap s @ [stored]\<rparr>))))"

definition is_due :: "datetime \<Rightarrow> task \<Rightarrow> bool" where
  "is_due now t = (now \<ge> last_run_at t + timedelta_minutes (interval_minutes t))"

definition due_refs :: "datetime \<Rightarrow> task list \<Rightarrow> ref list \<Rightarrow> ref list" where
  "due_refs now h rs =
     filter (\<lambda>r. case deref h r of None \<Rightarrow> False | Some t \<Rightarrow> is_due now t) rs"

definition due_tasks :: "datetime \<Rightarrow> engine \<Rightarrow> (ref \<times> aquarium) list" where
  "due_tasks now s =
     concat (map (\<lambda>a. case aq_id a of
                         None \<Rightarrow> []
                       | Some k \<Rightarrow> map (\<lambda>r. (r, a)) (due_refs now (heap s) (tasks_for k s)))
                 (aquariums s))"

text \<open>
  \<^verbatim>\<open>mark_task_done\<close> is handed a \<^verbatim>\<open>Task\<close> object. A reference outside the heap names
  no object (Python cannot construct one); the model leaves the state alone there.
\<close>

definition mark_task_done :: "ref \<Rightarrow> datetime \<Rightarrow> engine \<Rightarrow> error + engine" where
  "mark_task_done r now s =
     (case deref (heap s) r of
        None \<Rightarrow> Inr s
      | Some t \<Rightarrow>
          (case (case task_id t of
                   None \<Rightarrow>
                     (case db_upsert_task t (db s) of
                        Inl e \<Rightarrow> Inl e
                      | Inr (stored, d') \<Rightarrow> Inr (t\<lparr>task_id := task_id stored\<rparr>, d'))
                 | Some k \<Rightarrow> Inr (t, db s)) of
             Inl e \<Rightarrow> Inl e
           | Inr (t1, d1) \<Rightarrow>
               (let t2 = t1\<lparr>last_run_at := now\<rparr>;
                    d2 = (case task_id t2 of
                            None \<Rightarrow> d1
                          | Some k \<Rightarrow> db_update_task_timestamp k now d1)
                in Inr (s\<lparr>db := d2, heap := (heap s)[r := t2]\<rparr>))))"

subsection \<open>Removing a fish\<close>

text \<open>
  The identity of the fish is an argument of the caller, and \<^verbatim>\<open>sqlite3\<close> refuses to bind
  a Python integer outside the signed 64-bit range. \<^verbatim>\<open>remove_fish\<close> rewrites the cache
  first and calls the store second: when the store raises, the engine is left as
  \<open>remove_fish_cache\<close> has made it.
\<close>

definition sqlite_int_ok :: "int \<Rightarrow> bool" where
  "sqlite_int_ok k = (- 9223372036854775808 \<le> k \<and> k \<le> 9223372036854775807)"

definition db_delete_fish :: "int \<Rightarrow> database \<Rightarrow> error + database" where
  "db_delete_fish k d =
     (if \<not> sqlite_int_ok k then Inl OverflowError
      else Inr (d\<lparr>fish_rows := filter (\<lambda>r. fish_id r \<noteq> Some k) (fish_rows d),
                  commits := commits d + 1\<rparr>))"

definition remove_fish_cache :: "int \<Rightarrow> int \<Rightarrow> engine \<Rightarrow> engine" where
  "remove_fish_cache fid aquarium_id s =
     (let fishes = (case fish s aquarium_id of None \<Rightarrow> [] | Some fs \<Rightarrow> fs)
      in s\<lparr>fish := (fish s)(aquarium_id \<mapsto> filter (\<lambda>f. fish_id f \<noteq> Some fid) fishes)\<rparr>)"

definition remove_fish :: "int \<Rightarrow> int \<Rightarrow> engine \<Rightarrow> error + engine" where
  "remove_fish fid aquarium_id s =
     (let s1 = remove_fish_cache fid aquarium_id s
      in case db_delete_fish fid (db s1) of
           Inl e \<Rightarrow> Inl e
         | Inr d' \<Rightarrow> Inr (s1\<lparr>db := d'\<rparr>))"

subsection \<open>Predicates on states\<close>

text \<open>
  The identities of the cached aquariums, in the order of the cache. They are primary
  keys of the table the cache was read from, so they are pairwise different.
\<close>

definition cached_ids :: "aquarium list \<Rightarrow> int list" where
  "cached_ids as = List.map_filter aq_id as"

text \<open>
  The cache is well formed when these identities are pairwise different and each is
  below the identity that the store would give to the next aquarium row.
  \<open>aquarium_keys\<close> is the part of the store that this depends on.
\<close>

definition cache_ids_ok :: "engine \<Rightarrow> bool" where
  "cache_ids_ok s =
     (distinct (cached_ids (aquariums s))
      \<and> list_all (\<lambda>k. k < next_rowid (aquarium_seq (db s)) (map aq_id (aquarium_rows (db s))))
           (cached_ids (aquariums s)))"

definition aquarium_keys :: "database \<Rightarrow> int \<times> int option list" where
  "aquarium_keys d = (aquarium_seq d, map aq_id (aquarium_rows d))"

text \<open>The value ranges that section 3 of the specification calls invariants.\<close>

definition aquarium_ok :: "aquarium \<Rightarrow> bool" where
  "aquarium_ok a = (0 \<le> cleanliness a \<and> cleanliness a \<le> 100)"

definition fish_ok :: "fish \<Rightarrow> bool" where
  "fish_ok f = (0 \<le> hunger f \<and> hunger f \<le> 100 \<and> 10 \<le> health f \<and> health f \<le> 100)"

definition db_ok :: "database \<Rightarrow> bool" where
  "db_ok d = (list_all aquarium_ok (aquarium_rows d) \<and> list_all fish_ok (fish_rows d))"

definition engine_ok :: "engine \<Rightarrow> bool" where
  "engine_ok s =
     (list_all aquarium_ok (aquariums s)
      \<and> (\<forall>k fs. fish s k = Some fs \<longrightarrow> list_all fish_ok fs)
      \<and> db_ok (db s))"

subsection \<open>A concrete engine\<close>

text \<open>
  One aquarium with one fish and one reminder, with the starting values that
  \<^verbatim>\<open>ensure_defaults\<close> and the scenarios of the specification use; the clock starts at 0.
  The second aquarium value is 5 degrees below its target.
\<close>

definition demo_aquarium :: aquarium where
  "demo_aquarium =
     \<lparr>aq_id = Some 1, aq_name = ''Principal'', target_temperature = 25,
      current_temperature = 25, cleanliness = 85, last_cleaned_at = 0\<rparr>"

definition cold_aquarium :: aquarium where
  "cold_aquarium = demo_aquarium\<lparr>current_temperature := 20\<rparr>"

definition demo_fish :: fish where
  "demo_fish =
     \<lparr>fish_id = Some 1, fish_aquarium_id = 1, fish_name = ''Bolhas'', species = ''Tetra Neon'',
      hunger = 60, health = 82, created_at = 0\<rparr>"

definition demo_task :: task where
  "demo_task =
     \<lparr>task_id = Some 1, task_aquarium_id = 1, kind = ''alimentacao'', interval_minutes = 240,
      last_run_at = - timedelta_minutes 240\<rparr>"

definition demo_db :: database where
  "demo_db =
     \<lparr>aquarium_rows = [demo_aquarium], fish_rows = [demo_fish], task_rows = [demo_task],
      aquarium_seq = 1, fish_seq = 1, task_seq = 1, commits = 0\<rparr>"

definition demo_engine :: engine where
  "demo_engine =
     \<lparr>db = demo_db, aquariums = [demo_aquarium], fish = [1 \<mapsto> [demo_fish]],
      tasks = [1 \<mapsto> [0]], last_tick = 0, heap = [demo_task]\<rparr>"

definition cold_engine :: engine where
  "cold_engine =
     demo_engine\<lparr>db := demo_db\<lparr>aquarium_rows := [cold_aquarium]\<rparr>, aquariums := [cold_aquarium]\<rparr>"

section \<open>Properties of tick\<close>

subsection \<open>The aquariums after a tick\<close>

lemma tick_loop_aquariums:
  "fst (tick_loop m as fm d) = map (\<lambda>a. if aq_id a = None then a else tick_aquarium m a) as"
  by (induction as arbitrary: fm d) (simp_all add: Let_def case_prod_beta split: option.splits)

lemma aquariums_tick:
  "now - last_tick s > 0 \<Longrightarrow> aquariums (tick now s) =
     map (\<lambda>a. if aq_id a = None then a else tick_aquarium (elapsed_minutes now s) a) (aquariums s)"
  using tick_loop_aquariums[of "elapsed_minutes now s" "aquariums s" "fish s" "db s"]
  by (auto simp: tick_def split: prod.splits)

lemma nth_aquariums_tick:
  assumes "now - last_tick s > 0" "i < length (aquariums s)" "aq_id (aquariums s ! i) \<noteq> None"
  shows "aquariums (tick now s) ! i = tick_aquarium (elapsed_minutes now s) (aquariums s ! i)"
  using assms by (auto simp: aquariums_tick)

lemma elapsed_minutes_pos: "now - last_tick s > 0 \<Longrightarrow> 0 < elapsed_minutes now s"
  by (simp add: elapsed_minutes_def total_seconds_def)

lemma tick_noop: "now - last_tick s \<le> 0 \<Longrightarrow> tick now s = s"
  by (simp add: tick_def)

lemma last_tick_tick: "last_tick (tick now s) = (if now - last_tick s \<le> 0 then last_tick s else now)"
  by (auto simp: tick_def split: prod.splits)

text \<open>
  Claim C2. After a tick with elapsed minutes \<open>\<Delta> > 0\<close>, the cleanliness of every cached
  aquarium is \<open>max 0 (cleanliness - 0.18 * \<Delta>)\<close>; an aquarium of cleanliness 85 ticked
  with \<open>\<Delta> = 50\<close> ends at exactly 76. A cached aquarium carries an identity: the loop
  skips an aquarium whose identity is \<open>None\<close>, and neither \<^verbatim>\<open>reload\<close> nor
  \<^verbatim>\<open>create_aquarium\<close> puts one into the cache.
\<close>

theorem tick_cleanliness:
  assumes "now - last_tick s > 0" and "i < length (aquariums s)"
    and "aq_id (aquariums s ! i) \<noteq> None"
  shows "cleanliness (aquariums (tick now s) ! i)
           = max 0 (cleanliness (aquariums s ! i) - 0.18 * elapsed_minutes now s)
         \<and> (cleanliness (aquariums s ! i) = 85 \<and> elapsed_minutes now s = 50
              \<longrightarrow> cleanliness (aquariums (tick now s) ! i) = 76)"
  using nth_aquariums_tick[OF assms] by (auto simp: tick_aquarium_def)

theorem tick_cleanliness_witness:
  "(3000000000::int) - last_tick demo_engine > 0
   \<and> 0 < length (aquariums demo_engine)
   \<and> aq_id (aquariums demo_engine ! 0) \<noteq> None
   \<and> cleanliness (aquariums demo_engine ! 0) = 85
   \<and> elapsed_minutes 3000000000 demo_engine = 50
   \<and> cleanliness (aquariums (tick 3000000000 demo_engine) ! 0) = 76"
proof -
  have h: "(3000000000::int) - last_tick demo_engine > 0" "0 < length (aquariums demo_engine)"
    "aq_id (aquariums demo_engine ! 0) \<noteq> None"
    by (simp_all add: demo_engine_def demo_aquarium_def)
  have e: "elapsed_minutes 3000000000 demo_engine = 50"
    "cleanliness (aquariums demo_engine ! 0) = 85"
    by (simp_all add: elapsed_minutes_def total_seconds_def demo_engine_def demo_aquarium_def)
  from tick_cleanliness[OF h] e h show ?thesis by simp
qed

subsection \<open>The temperature after a tick\<close>

text \<open>Rounding to binary64: bounds and exact cases.\<close>

lemma rhe_lower: "of_int m \<le> y \<Longrightarrow> m \<le> round_half_even y"
proof -
  assume "of_int m \<le> y"
  then have "m \<le> \<lfloor>y\<rfloor>" by (simp add: le_floor_iff)
  then show ?thesis by (auto simp: round_half_even_def Let_def)
qed

lemma rhe_upper: "y \<le> of_int m \<Longrightarrow> round_half_even y \<le> m"
proof -
  assume h: "y \<le> of_int m"
  then have n: "\<lfloor>y\<rfloor> \<le> m" by (simp add: floor_le_iff)
  show ?thesis
  proof (cases "\<lfloor>y\<rfloor> = m")
    case True
    with h have "y - of_int \<lfloor>y\<rfloor> \<le> 0" by simp
    then show ?thesis using True by (simp add: round_half_even_def Let_def)
  next
    case False
    with n have "\<lfloor>y\<rfloor> + 1 \<le> m" by simp
    then show ?thesis by (auto simp: round_half_even_def Let_def)
  qed
qed

lemma rhe_of_int: "round_half_even (of_int m) = m"
  by (simp add: round_half_even_def)

lemma rhe_below_half:
  assumes "of_int n \<le> y" and "y < of_int n + 1 / 2"
  shows "round_half_even y = n"
proof -
  have "\<lfloor>y\<rfloor> = n" using assms by (intro floor_unique) simp_all
  then show ?thesis using assms by (simp add: round_half_even_def Let_def)
qed

lemma binade_eq:
  assumes "2 powr of_int e \<le> \<bar>x\<bar>" and "\<bar>x\<bar> < 2 powr of_int (e + 1)"
  shows "binade x = e"
proof -
  have "0 < \<bar>x\<bar>" using assms(1) by (smt (verit) powr_gt_zero)
  then show ?thesis
    unfolding binade_def using assms by (simp add: floor_log_eq_powr_iff)
qed

lemma ulp_pos: "0 < ulp x"
  by (simp add: ulp_def)

lemma fl_nonneg: "0 \<le> x \<Longrightarrow> 0 \<le> fl x"
proof -
  assume "0 \<le> x"
  then have "of_int 0 \<le> x / ulp x" using ulp_pos[of x] by simp
  then have "0 \<le> round_half_even (x / ulp x)" by (rule rhe_lower)
  then show ?thesis using ulp_pos[of x] by (simp add: fl_def)
qed

lemma fl_lower:
  assumes "x \<noteq> 0" and "of_int m * ulp x \<le> x"
  shows "of_int m * ulp x \<le> fl x"
proof -
  have "of_int m \<le> x / ulp x" using assms(2) ulp_pos[of x] by (simp add: pos_le_divide_eq)
  then have "m \<le> round_half_even (x / ulp x)" by (rule rhe_lower)
  then have "of_int m * ulp x \<le> of_int (round_half_even (x / ulp x)) * ulp x"
    using ulp_pos[of x] by simp
  then show ?thesis using assms(1) by (simp add: fl_def)
qed

lemma fl_upper:
  assumes "x \<noteq> 0" and "x \<le> of_int m * ulp x"
  shows "fl x \<le> of_int m * ulp x"
proof -
  have "x / ulp x \<le> of_int m" using assms(2) ulp_pos[of x] by (simp add: pos_divide_le_eq)
  then have "round_half_even (x / ulp x) \<le> m" by (rule rhe_upper)
  then have "of_int (round_half_even (x / ulp x)) * ulp x \<le> of_int m * ulp x"
    using ulp_pos[of x] by simp
  then show ?thesis using assms(1) by (simp add: fl_def)
qed

lemma fl_exact:
  assumes "x = of_int m * ulp x"
  shows "fl x = x"
proof (cases "x = 0")
  case True
  then show ?thesis by (simp add: fl_def)
next
  case False
  have "x / ulp x = of_int m" using assms ulp_pos[of x]
    by (metis nonzero_eq_divide_eq less_irrefl)
  then show ?thesis using False assms by (simp add: fl_def rhe_of_int)
qed

lemma fl_le_pow2:
  assumes "0 \<le> x" and "x \<le> 2 powr of_int k" and "- 1022 \<le> k"
  shows "fl x \<le> 2 powr of_int k"
proof (cases "x = 0")
  case True
  then show ?thesis by (simp add: fl_def)
next
  case False
  with assms(1) have pos: "0 < x" by simp
  have "log 2 x \<le> of_int k"
    using pos assms(2) by (simp add: log_le_iff)
  then have "binade x \<le> k"
    using pos by (simp add: binade_def floor_le_iff)
  then have c: "max (binade x) (- 1022) \<le> k" using assms(3) by simp
  define j where "j = k - max (binade x) (- 1022) + 52"
  have j: "0 \<le> j" using c by (simp add: j_def)
  have "(2::real) powr of_int k = 2 powr of_int j * ulp x"
    by (simp add: ulp_def j_def powr_add[symmetric])
  also have "(2::real) powr of_int j = of_int (2 ^ nat j)"
    using j by (simp add: powr_real_of_int)
  finally have e: "2 powr of_int k = of_int (2 ^ nat j) * ulp x" .
  show ?thesis
    unfolding e by (rule fl_upper[OF False]) (use assms(2) e in simp)
qed

lemma ulp_in_binade:
  assumes "2 powr of_int e \<le> \<bar>x\<bar>" and "\<bar>x\<bar> < 2 powr of_int (e + 1)" and "- 1022 \<le> e"
  shows "ulp x = 2 powr of_int (e - 52)"
  using binade_eq[OF assms(1,2)] assms(3) by (simp add: ulp_def)

lemma fl_60: "fl 60 = 60"
proof -
  have u: "ulp 60 = 2 powr of_int (5 - 52)"
    by (rule ulp_in_binade) simp_all
  have "(60::real) = of_int (60 * 2 ^ 47) * ulp 60"
    unfolding u by (simp add: powr_minus)
  then show ?thesis by (rule fl_exact)
qed

lemma fl_1: "fl 1 = 1"
proof -
  have u: "ulp 1 = 2 powr of_int (0 - 52)"
    by (rule ulp_in_binade) simp_all
  have "(1::real) = of_int (2 ^ 52) * ulp 1"
    unfolding u by (simp add: powr_minus)
  then show ?thesis by (rule fl_exact)
qed

lemma minutes_double_60: "minutes_double 60000000 = 1"
  by (simp add: minutes_double_def fl_60 fl_1)

lemma fl_arg_bounds: "- 1 / 16 \<le> fl (- 1 / 18) \<and> fl (- 1 / 18) \<le> - 1 / 32"
proof -
  have u: "ulp (- 1 / 18) = 2 powr of_int (- 5 - 52)"
    by (rule ulp_in_binade) (simp_all add: powr_minus)
  have nz: "(- 1 / 18 :: real) \<noteq> 0" by simp
  have "of_int (- (2 ^ 53)) * ulp (- 1 / 18) \<le> - 1 / 18"
    unfolding u by (simp add: powr_minus)
  then have lo: "of_int (- (2 ^ 53)) * ulp (- 1 / 18) \<le> fl (- 1 / 18)"
    by (rule fl_lower[OF nz])
  have "- 1 / 18 \<le> of_int (- (2 ^ 52)) * ulp (- 1 / 18)"
    unfolding u by (simp add: powr_minus)
  then have hi: "fl (- 1 / 18) \<le> of_int (- (2 ^ 52)) * ulp (- 1 / 18)"
    by (rule fl_upper[OF nz])
  from lo hi show ?thesis
    unfolding u by (simp add: powr_minus)
qed

lemma math_exp_bounds:
  assumes "- 1 / 16 \<le> x" and "x \<le> - 1 / 32"
  shows "15 / 16 \<le> math_exp x \<and> math_exp x \<le> 1"
proof -
  have lo: "15 / 16 \<le> exp x"
    using exp_ge_add_one_self[of x] assms(1) by linarith
  have hi: "exp x < 1"
    using assms(2) by simp
  have u: "ulp (exp x) = 2 powr of_int (- 1 - 52)"
    by (rule ulp_in_binade) (use lo hi in \<open>simp_all add: powr_minus\<close>)
  have nz: "exp x \<noteq> 0" by simp
  have "of_int (15 * 2 ^ 49) * ulp (exp x) \<le> exp x"
    unfolding u using lo by (simp add: powr_minus)
  then have a: "of_int (15 * 2 ^ 49) * ulp (exp x) \<le> fl (exp x)"
    by (rule fl_lower[OF nz])
  have "exp x \<le> of_int (2 ^ 53) * ulp (exp x)"
    unfolding u using hi by (simp add: powr_minus)
  then have b: "fl (exp x) \<le> of_int (2 ^ 53) * ulp (exp x)"
    by (rule fl_upper[OF nz])
  from a b show ?thesis
    unfolding math_exp_def u by (simp add: powr_minus)
qed

lemma ratio_bounds: "0 \<le> adjustment_ratio_double 1 \<and> adjustment_ratio_double 1 \<le> 1 / 16"
proof -
  let ?e = "math_exp (fl (- 1 / 18))"
  have e: "15 / 16 \<le> ?e \<and> ?e \<le> 1"
    using fl_arg_bounds by (intro math_exp_bounds) simp_all
  then have z: "0 \<le> 1 - ?e" "1 - ?e \<le> 2 powr of_int (- 4)"
    by (simp_all add: powr_minus)
  from fl_nonneg[OF z(1)] fl_le_pow2[OF z] show ?thesis
    by (simp add: adjustment_ratio_double_def powr_minus)
qed

lemma fl_pow2_48: "fl (1 / 2 ^ 48) = 1 / 2 ^ 48"
proof -
  have u: "ulp (1 / 2 ^ 48) = 2 powr of_int (- 48 - 52)"
    by (rule ulp_in_binade) (simp_all add: powr_minus)
  have "(1 / 2 ^ 48 :: real) = of_int (2 ^ 52) * ulp (1 / 2 ^ 48)"
    unfolding u by (simp add: powr_minus)
  then show ?thesis by (rule fl_exact)
qed

lemma stuck_below_target:
  assumes "0 \<le> r" and "r \<le> 1 / 16"
  shows "fl ((25 - 1 / 2 ^ 48) + fl (fl (25 - (25 - 1 / 2 ^ 48)) * r)) = 25 - 1 / 2 ^ 48"
proof -
  define p where "p = fl (1 / 2 ^ 48 * r)"
  have g: "fl (25 - (25 - 1 / 2 ^ 48)) = 1 / 2 ^ 48"
    using fl_pow2_48 by simp
  have q: "0 \<le> 1 / 2 ^ 48 * r" "1 / 2 ^ 48 * r \<le> 2 powr of_int (- 52)"
    using assms by (simp_all add: powr_minus)
  have p: "0 \<le> p" "p \<le> 1 / 2 ^ 52"
    using fl_nonneg[OF q(1)] fl_le_pow2[OF q] by (simp_all add: p_def powr_minus)
  let ?z = "(25 - 1 / 2 ^ 48) + p"
  have u: "ulp ?z = 2 powr of_int (4 - 52)"
    by (rule ulp_in_binade) (use p in simp_all)
  have y: "?z / ulp ?z = of_int (25 * 2 ^ 48 - 1) + p * 2 ^ 48"
    unfolding u by (simp add: powr_minus field_simps)
  have "round_half_even (?z / ulp ?z) = 25 * 2 ^ 48 - 1"
    unfolding y by (rule rhe_below_half) (use p in simp_all)
  moreover have "?z \<noteq> 0" using p by simp
  ultimately have "fl ?z = of_int (25 * 2 ^ 48 - 1) * ulp ?z"
    by (simp add: fl_def)
  also have "\<dots> = 25 - 1 / 2 ^ 48"
    unfolding u by (simp add: powr_minus field_simps)
  finally show ?thesis
    unfolding g p_def .
qed

lemma temperature_double_at_target:
  assumes "fl c = c"
  shows "temperature_double m c c = c"
  using assms by (simp add: temperature_double_def fl_def)

lemma fl_25: "fl 25 = 25"
proof -
  have u: "ulp 25 = 2 powr of_int (4 - 52)"
    by (rule ulp_in_binade) simp_all
  have "(25::real) = of_int (25 * 2 ^ 48) * ulp 25"
    unfolding u by (simp add: powr_minus)
  then show ?thesis by (rule fl_exact)
qed

text \<open>
  Claim C3 says that the current temperature moves strictly toward the target and is
  unchanged exactly when it equals the target. In the binary64 arithmetic of the code
  this fails next to the target: for the binary64 number just below 25 and the target
  25, a tick of one minute computes an increment below half the distance to the next
  binary64 number, and the sum rounds back to the old temperature. The temperature is
  unchanged and is not the target.
\<close>

theorem temperature_stuck_counterexample:
  "(0::int) < 60000000
   \<and> fl (25 - 1 / 2 ^ 48) = 25 - 1 / 2 ^ 48
   \<and> temperature_double (minutes_double 60000000) (25 - 1 / 2 ^ 48) 25 = 25 - 1 / 2 ^ 48
   \<and> (25 - 1 / 2 ^ 48 :: real) \<noteq> 25"
proof -
  have d: "fl (25 - 1 / 2 ^ 48) = 25 - 1 / 2 ^ 48"
    using stuck_below_target[of 0] by (simp add: fl_def)
  have "temperature_double 1 (25 - 1 / 2 ^ 48) 25 = 25 - 1 / 2 ^ 48"
    unfolding temperature_double_def using ratio_bounds by (intro stuck_below_target) simp_all
  with d show ?thesis by (simp add: minutes_double_60)
qed

text \<open>
  Claim C3, amended. After a tick with elapsed minutes \<open>\<Delta> > 0\<close>, the current temperature
  of every cached aquarium has changed by the fraction \<open>1 - exp (- \<Delta> / 18)\<close> of the gap
  between target and current temperature, and the target is as before. A temperature
  that equals the target is unchanged, in exact arithmetic and, for a binary64 value, in
  the arithmetic of the code as well. Nothing is said on whether a temperature that
  differs from the target changes.
\<close>

theorem tick_temperature_formula:
  assumes "now - last_tick s > 0" and "i < length (aquariums s)"
    and "aq_id (aquariums s ! i) \<noteq> None"
  shows "current_temperature (aquariums (tick now s) ! i)
           = current_temperature (aquariums s ! i)
             + (target_temperature (aquariums s ! i) - current_temperature (aquariums s ! i))
               * (1 - exp (- elapsed_minutes now s / 18))
         \<and> target_temperature (aquariums (tick now s) ! i) = target_temperature (aquariums s ! i)
         \<and> (current_temperature (aquariums s ! i) = target_temperature (aquariums s ! i)
              \<longrightarrow> current_temperature (aquariums (tick now s) ! i)
                    = current_temperature (aquariums s ! i))
         \<and> (current_temperature (aquariums s ! i) = target_temperature (aquariums s ! i)
              \<and> fl (current_temperature (aquariums s ! i)) = current_temperature (aquariums s ! i)
              \<longrightarrow> temperature_double (minutes_double (now - last_tick s))
                      (current_temperature (aquariums s ! i))
                      (target_temperature (aquariums s ! i))
                    = current_temperature (aquariums s ! i))"
proof -
  let ?m = "elapsed_minutes now s"
  let ?a = "aquariums s ! i"
  have a': "aquariums (tick now s) ! i = tick_aquarium ?m ?a"
    by (rule nth_aquariums_tick[OF assms])
  have c: "current_temperature (tick_aquarium ?m ?a)
             = current_temperature ?a
               + (target_temperature ?a - current_temperature ?a) * (1 - exp (- ?m / 18))"
    and t: "target_temperature (tick_aquarium ?m ?a) = target_temperature ?a"
    by (simp_all add: tick_aquarium_def adjustment_ratio_def)
  have e: "current_temperature (tick_aquarium ?m ?a) = current_temperature ?a"
    if "current_temperature ?a = target_temperature ?a"
    unfolding c using that by simp
  have d: "temperature_double (minutes_double (now - last_tick s))
             (current_temperature ?a) (target_temperature ?a) = current_temperature ?a"
    if "current_temperature ?a = target_temperature ?a"
      and "fl (current_temperature ?a) = current_temperature ?a"
    using temperature_double_at_target[OF that(2)] that(1) by simp
  show ?thesis
    unfolding a' using c t e d by blast
qed

theorem tick_temperature_formula_witness:
  "(1080000000::int) - last_tick cold_engine > 0
   \<and> 0 < length (aquariums cold_engine)
   \<and> aq_id (aquariums cold_engine ! 0) \<noteq> None
   \<and> current_temperature (aquariums (tick 1080000000 cold_engine) ! 0) = 20 + 5 * (1 - exp (- 1))
   \<and> (\<exists>a s'. create_aquarium ''Sala Verde'' 25 0 demo_engine = Inr (a, s')
          \<and> current_temperature a = 25 \<and> fl (current_temperature a) = current_temperature a
          \<and> current_temperature (aquariums (tick 1080000000 s') ! 1) = 25
          \<and> temperature_double (minutes_double (1080000000 - last_tick s')) 25 25 = 25)"
proof -
  have h: "(1080000000::int) - last_tick cold_engine > 0" "0 < length (aquariums cold_engine)"
    "aq_id (aquariums cold_engine ! 0) \<noteq> None"
    by (simp_all add: cold_engine_def demo_engine_def cold_aquarium_def demo_aquarium_def)
  have e: "elapsed_minutes 1080000000 cold_engine = 18"
    "current_temperature (aquariums cold_engine ! 0) = 20"
    "target_temperature (aquariums cold_engine ! 0) = 25"
    by (simp_all add: elapsed_minutes_def total_seconds_def cold_engine_def demo_engine_def
        cold_aquarium_def demo_aquarium_def)
  have f: "current_temperature (aquariums (tick 1080000000 cold_engine) ! 0)
             = 20 + 5 * (1 - exp (- 1))"
    using tick_temperature_formula[OF h] unfolding e by simp
  obtain a s' where c: "create_aquarium ''Sala Verde'' 25 0 demo_engine = Inr (a, s')"
    and a: "a = \<lparr>aq_id = Some 2, aq_name = ''Sala Verde'', target_temperature = 25,
                 current_temperature = 25, cleanliness = 90, last_cleaned_at = 0\<rparr>"
    and s': "aquariums s' = [demo_aquarium, a]" "last_tick s' = 0"
    by (simp add: create_aquarium_def db_upsert_aquarium_def Let_def next_rowid_def
        demo_engine_def demo_db_def demo_aquarium_def)
  have h': "(1080000000::int) - last_tick s' > 0" "1 < length (aquariums s')"
    "aq_id (aquariums s' ! 1) \<noteq> None"
    by (simp_all add: s' a)
  have e': "current_temperature (aquariums s' ! 1) = 25" "target_temperature (aquariums s' ! 1) = 25"
    by (simp_all add: s' a)
  have "current_temperature (aquariums (tick 1080000000 s') ! 1) = 25
        \<and> temperature_double (minutes_double (1080000000 - last_tick s')) 25 25 = 25"
    using tick_temperature_formula[OF h'] fl_25 unfolding e' by simp
  with c a fl_25
  have "\<exists>a s'. create_aquarium ''Sala Verde'' 25 0 demo_engine = Inr (a, s')
          \<and> current_temperature a = 25 \<and> fl (current_temperature a) = current_temperature a
          \<and> current_temperature (aquariums (tick 1080000000 s') ! 1) = 25
          \<and> temperature_double (minutes_double (1080000000 - last_tick s')) 25 25 = 25"
    by auto
  with f h show ?thesis by simp
qed

subsection \<open>A tick without elapsed time\<close>

text \<open>
  Claim C7. When the time elapsed since the last tick is zero or negative, \<open>tick\<close> returns
  the engine as it was: cache, heap, clock and store, the count of commits included, so
  nothing was written. A second tick at the instant of the first one is therefore without
  effect.
\<close>

theorem tick_nonpositive_elapsed_noop:
  "(now - last_tick s \<le> 0
      \<longrightarrow> tick now s = s \<and> db (tick now s) = db s
          \<and> commits (db (tick now s)) = commits (db s))
   \<and> tick now (tick now s) = tick now s"
  using tick_noop[of now "tick now s"] tick_noop[of now s] last_tick_tick[of now s] by auto

theorem tick_nonpositive_elapsed_noop_witness:
  "(0::int) - last_tick demo_engine \<le> 0 \<and> tick 0 demo_engine = demo_engine
   \<and> commits (db (tick 0 demo_engine)) = 0
   \<and> tick 3000000000 (tick 3000000000 demo_engine) = tick 3000000000 demo_engine"
  using tick_nonpositive_elapsed_noop[of 0 demo_engine]
    tick_nonpositive_elapsed_noop[of 3000000000 demo_engine]
  by (simp add: demo_engine_def demo_db_def)

section \<open>Properties of the commands\<close>

subsection \<open>Fish during a tick\<close>

lemma cached_ids_Cons:
  "cached_ids (a # as) = (case aq_id a of None \<Rightarrow> cached_ids as | Some k \<Rightarrow> k # cached_ids as)"
  by (simp add: cached_ids_def split: option.splits)

lemma in_cached_ids: "k \<in> set (cached_ids as) \<longleftrightarrow> Some k \<in> set (map aq_id as)"
  by (induction as) (auto simp: cached_ids_Cons cached_ids_def split: option.splits)

lemma tick_loop_fish_other:
  "Some k \<notin> set (map aq_id as) \<Longrightarrow> fst (snd (tick_loop m as fm d)) k = fm k"
  by (induction as arbitrary: fm d)
     (auto simp: Let_def case_prod_beta split: option.splits)

lemma tick_loop_fish_at:
  assumes "distinct (cached_ids as)" and "i < length as" and "aq_id (as ! i) = Some k"
    and "fm k = Some fs"
  shows "fst (snd (tick_loop m as fm d)) k
           = Some (map (tick_fish m (tick_aquarium m (as ! i))) fs)"
  using assms
proof (induction as arbitrary: i fm d)
  case Nil
  then show ?case by simp
next
  case (Cons a as)
  show ?case
  proof (cases i)
    case 0
    with Cons.prems have a: "aq_id a = Some k" by simp
    with Cons.prems(1) have "Some k \<notin> set (map aq_id as)"
      by (auto simp: cached_ids_Cons in_cached_ids)
    then show ?thesis
      using a 0 Cons.prems(4)
      by (simp add: Let_def case_prod_beta tick_loop_fish_other)
  next
    case (Suc n)
    with Cons.prems have n: "n < length as" "aq_id (as ! n) = Some k" by simp_all
    then have mem: "k \<in> set (cached_ids as)"
      unfolding in_cached_ids by (metis image_eqI nth_mem set_map)
    have a: "aq_id a \<noteq> Some k"
    proof
      assume "aq_id a = Some k"
      with Cons.prems(1) have "k \<notin> set (cached_ids as)"
        by (simp add: cached_ids_Cons)
      with mem show False by simp
    qed
    have dist: "distinct (cached_ids as)"
      using Cons.prems(1) by (simp add: cached_ids_Cons split: option.splits)
    show ?thesis
      using Cons.IH[OF dist n] a Suc Cons.prems(4)
      by (auto simp: Let_def case_prod_beta split: option.splits)
  qed
qed

lemma fish_tick:
  "now - last_tick s > 0 \<Longrightarrow>
     fish (tick now s) = fst (snd (tick_loop (elapsed_minutes now s) (aquariums s) (fish s) (db s)))"
  by (auto simp: tick_def split: prod.splits)

text \<open>
  Claim C1. After a tick with elapsed minutes \<open>\<Delta> > 0\<close>, every fish cached for a cached
  aquarium has hunger \<open>min 100 (hunger + 0.45 * \<Delta>)\<close>, and its health is the old health
  minus the sum of the three penalties, clamped to the range from 10 to 100. The code
  computes the penalties after it has assigned the new hunger and has updated the
  aquarium: the hunger, the temperatures and the cleanliness in them are the values
  of this tick. The identities of the cached aquariums are pairwise different, so the
  fish of an aquarium are visited once.
\<close>

theorem tick_fish_levels:
  assumes "now - last_tick s > 0" and "distinct (cached_ids (aquariums s))"
    and "i < length (aquariums s)" and "aq_id (aquariums s ! i) = Some k"
    and "fish s k = Some fs" and "j < length fs"
  shows "\<exists>fs'. fish (tick now s) k = Some fs' \<and> length fs' = length fs
           \<and> hunger (fs' ! j) = min 100 (hunger (fs ! j) + 0.45 * elapsed_minutes now s)
           \<and> health (fs' ! j)
               = max 10 (min 100 (health (fs ! j)
                   - ((if hunger (fs' ! j) > 70
                       then (hunger (fs' ! j) - 70) * 0.02 * elapsed_minutes now s else 0)
                    + (if \<bar>current_temperature (aquariums (tick now s) ! i)
                            - target_temperature (aquariums (tick now s) ! i)\<bar> > 2.5
                       then (\<bar>current_temperature (aquariums (tick now s) ! i)
                               - target_temperature (aquariums (tick now s) ! i)\<bar> - 2.5)
                            * 0.5 * elapsed_minutes now s
                       else 0)
                    + (if cleanliness (aquariums (tick now s) ! i) < 40
                       then (40 - cleanliness (aquariums (tick now s) ! i))
                            * 0.01 * elapsed_minutes now s
                       else 0))))"
proof -
  let ?m = "elapsed_minutes now s"
  let ?a' = "tick_aquarium ?m (aquariums s ! i)"
  have a': "aquariums (tick now s) ! i = ?a'"
    using nth_aquariums_tick[OF assms(1,3)] assms(4) by simp
  have f: "fish (tick now s) k = Some (map (tick_fish ?m ?a') fs)"
    using tick_loop_fish_at[where fm = "fish s" and as = "aquariums s", OF assms(2,3,4,5)]
      fish_tick[OF assms(1)] by simp
  have h: "hunger (tick_fish ?m ?a' (fs ! j)) = min 100 (hunger (fs ! j) + 0.45 * ?m)"
    by (simp add: tick_fish_def Let_def)
  have p: "health (tick_fish ?m ?a' (fs ! j))
             = max 10 (min 100 (health (fs ! j)
                 - tick_penalty ?m ?a' (hunger (tick_fish ?m ?a' (fs ! j)))))"
    by (simp add: tick_fish_def Let_def)
  have q: "tick_penalty ?m ?a' x
             = (if x > 70 then (x - 70) * 0.02 * ?m else 0)
               + (if \<bar>current_temperature ?a' - target_temperature ?a'\<bar> > 2.5
                  then (\<bar>current_temperature ?a' - target_temperature ?a'\<bar> - 2.5) * 0.5 * ?m
                  else 0)
               + (if cleanliness ?a' < 40 then (40 - cleanliness ?a') * 0.01 * ?m else 0)" for x
    by (simp add: tick_penalty_def Let_def)
  have n: "map (tick_fish ?m ?a') fs ! j = tick_fish ?m ?a' (fs ! j)"
    using assms(6) by simp
  show ?thesis
    unfolding a'
  proof (intro exI[of _ "map (tick_fish ?m ?a') fs"] conjI)
    show "fish (tick now s) k = Some (map (tick_fish ?m ?a') fs)" by (rule f)
    show "length (map (tick_fish ?m ?a') fs) = length fs" by simp
    show "hunger (map (tick_fish ?m ?a') fs ! j) = min 100 (hunger (fs ! j) + 0.45 * ?m)"
      unfolding n by (rule h)
    show "health (map (tick_fish ?m ?a') fs ! j)
            = max 10 (min 100 (health (fs ! j)
                - ((if hunger (map (tick_fish ?m ?a') fs ! j) > 70
                    then (hunger (map (tick_fish ?m ?a') fs ! j) - 70) * 0.02 * ?m else 0)
                 + (if \<bar>current_temperature ?a' - target_temperature ?a'\<bar> > 2.5
                    then (\<bar>current_temperature ?a' - target_temperature ?a'\<bar> - 2.5) * 0.5 * ?m
                    else 0)
                 + (if cleanliness ?a' < 40 then (40 - cleanliness ?a') * 0.01 * ?m else 0))))"
      unfolding n using p[unfolded q] .
  qed
qed

theorem tick_fish_levels_witness:
  "(1200000000::int) - last_tick demo_engine > 0
   \<and> distinct (cached_ids (aquariums demo_engine))
   \<and> (0::nat) < length (aquariums demo_engine) \<and> aq_id (aquariums demo_engine ! 0) = Some 1
   \<and> fish demo_engine 1 = Some [demo_fish] \<and> (0::nat) < length [demo_fish]
   \<and> elapsed_minutes 1200000000 demo_engine = 20
   \<and> (\<exists>fs'. fish (tick 1200000000 demo_engine) 1 = Some fs' \<and> length fs' = 1
          \<and> hunger (fs' ! 0) = 69 \<and> health (fs' ! 0) = 82)"
proof -
  have h: "(1200000000::int) - last_tick demo_engine > 0"
    "distinct (cached_ids (aquariums demo_engine))"
    "(0::nat) < length (aquariums demo_engine)" "aq_id (aquariums demo_engine ! 0) = Some 1"
    "fish demo_engine 1 = Some [demo_fish]" "(0::nat) < length [demo_fish]"
    by (simp_all add: demo_engine_def demo_aquarium_def cached_ids_def)
  have e: "elapsed_minutes 1200000000 demo_engine = 20"
    by (simp add: elapsed_minutes_def total_seconds_def demo_engine_def)
  have c: "aquariums (tick 1200000000 demo_engine) ! 0 = tick_aquarium 20 demo_aquarium"
    using nth_aquariums_tick[of 1200000000 demo_engine 0] h e by (simp add: demo_engine_def)
  have v: "cleanliness (tick_aquarium 20 demo_aquarium) = 81.4"
    "current_temperature (tick_aquarium 20 demo_aquarium) = 25"
    "target_temperature (tick_aquarium 20 demo_aquarium) = 25"
    by (simp_all add: tick_aquarium_def demo_aquarium_def)
  have "\<exists>fs'. fish (tick 1200000000 demo_engine) 1 = Some fs' \<and> length fs' = 1
          \<and> hunger (fs' ! 0) = 69 \<and> health (fs' ! 0) = 82"
    using tick_fish_levels[OF h] unfolding c e v by (auto simp: demo_fish_def)
  with h e show ?thesis by blast
qed

subsection \<open>Feeding\<close>

text \<open>
  Claim C4. \<open>feed_fish\<close> returns normally, and every fish cached for the aquarium has
  hunger \<open>max 0 (hunger - 45)\<close> and health \<open>min 100 (health + 8)\<close> afterwards.
\<close>

theorem feed_fish_levels:
  assumes "fish s k = Some fs" and "j < length fs"
  shows "\<exists>s' fs'. feed_fish k s = Inr s' \<and> fish s' k = Some fs' \<and> length fs' = length fs
           \<and> hunger (fs' ! j) = max 0 (hunger (fs ! j) - 45)
           \<and> health (fs' ! j) = min 100 (health (fs ! j) + 8)"
proof -
  from assms have ne: "map feed_one fs \<noteq> []" by auto
  have "feed_fish k s
          = Inr (s\<lparr>db := db_update_fish (map feed_one fs) (db s),
                   fish := (fish s)(k \<mapsto> map feed_one fs)\<rparr>)"
    using assms(1) ne by (simp add: feed_fish_def Let_def)
  moreover have "hunger (map feed_one fs ! j) = max 0 (hunger (fs ! j) - 45)"
    "health (map feed_one fs ! j) = min 100 (health (fs ! j) + 8)"
    using assms(2) by (simp_all add: feed_one_def)
  ultimately show ?thesis by simp
qed

theorem feed_fish_levels_witness:
  "fish demo_engine 1 = Some [demo_fish] \<and> (0::nat) < length [demo_fish]
   \<and> (\<exists>s' fs'. feed_fish 1 demo_engine = Inr s' \<and> fish s' 1 = Some fs' \<and> length fs' = 1
         \<and> hunger (fs' ! 0) = 15 \<and> health (fs' ! 0) = 90)"
proof -
  have h: "fish demo_engine 1 = Some [demo_fish]" "(0::nat) < length [demo_fish]"
    by (simp_all add: demo_engine_def)
  from feed_fish_levels[OF h] h show ?thesis by (simp add: demo_fish_def)
qed

subsection \<open>Due tasks\<close>

lemma in_due_tasks:
  "(r, a) \<in> set (due_tasks now s) \<longleftrightarrow>
     a \<in> set (aquariums s)
     \<and> (\<exists>k. aq_id a = Some k \<and> r \<in> set (due_refs now (heap s) (tasks_for k s)))"
proof -
  have "(r, a) \<in> set (case aq_id x of None \<Rightarrow> []
            | Some k \<Rightarrow> map (\<lambda>r. (r, x)) (due_refs now (heap s) (tasks_for k s)))
          \<longleftrightarrow> x = a \<and> (\<exists>k. aq_id a = Some k \<and> r \<in> set (due_refs now (heap s) (tasks_for k s)))"
    for x by (cases "aq_id x") auto
  then show ?thesis
    by (auto simp: due_tasks_def)
qed

text \<open>
  Claim C5. A task cached under a cached aquarium is in the result of \<open>due_tasks\<close>,
  paired with that aquarium, if and only if \<open>now\<close> is at least its last run plus its
  interval.
\<close>

theorem due_tasks_iff:
  assumes "a \<in> set (aquariums s)" and "aq_id a = Some k" and "tasks s k = Some rs"
    and "r \<in> set rs" and "deref (heap s) r = Some t"
  shows "(r, a) \<in> set (due_tasks now s)
           \<longleftrightarrow> now \<ge> last_run_at t + timedelta_minutes (interval_minutes t)"
  using assms by (simp add: in_due_tasks due_refs_def tasks_for_def is_due_def)

theorem due_tasks_iff_witness:
  "demo_aquarium \<in> set (aquariums demo_engine) \<and> aq_id demo_aquarium = Some 1
   \<and> tasks demo_engine 1 = Some [0] \<and> (0::nat) \<in> set [0]
   \<and> deref (heap demo_engine) 0 = Some demo_task
   \<and> (0, demo_aquarium) \<in> set (due_tasks 0 demo_engine)
   \<and> (0, demo_aquarium) \<notin> set (due_tasks (- 1) demo_engine)"
proof -
  have h: "demo_aquarium \<in> set (aquariums demo_engine)" "aq_id demo_aquarium = Some 1"
    "tasks demo_engine 1 = Some [0]" "(0::nat) \<in> set [0]"
    "deref (heap demo_engine) 0 = Some demo_task"
    by (simp_all add: demo_engine_def demo_aquarium_def deref_def)
  from due_tasks_iff[OF h, of 0] due_tasks_iff[OF h, of "- 1"] h show ?thesis
    by (simp add: demo_task_def timedelta_minutes_def)
qed

subsection \<open>Commands on one aquarium of the cache\<close>

lemma first_match_none:
  "Some k \<notin> set (map aq_id as) \<Longrightarrow> first_match k body as d = (as, d)"
  by (induction as) auto

lemma first_match_at:
  assumes "i < length as" and "aq_id (as ! i) = Some k" and "\<forall>j<i. aq_id (as ! j) \<noteq> Some k"
  shows "first_match k body as d = (as[i := fst (body (as ! i) d)], snd (body (as ! i) d))"
  using assms
proof (induction as arbitrary: i)
  case Nil
  then show ?case by simp
next
  case (Cons a as)
  show ?case
  proof (cases i)
    case 0
    with Cons.prems show ?thesis by (simp add: case_prod_beta)
  next
    case (Suc n)
    with Cons.prems have a: "aq_id a \<noteq> Some k" by auto
    have "\<forall>j<n. aq_id (as ! j) \<noteq> Some k"
      using Cons.prems(3) Suc by auto
    with Cons.IH[of n] Cons.prems Suc a show ?thesis by simp
  qed
qed

lemma snd_upsert_existing:
  "aq_id a = Some k \<Longrightarrow>
     snd (db_upsert_aquarium a d)
       = d\<lparr>aquarium_rows := map (\<lambda>r. if aq_id r = Some k then a else r) (aquarium_rows d),
            commits := commits d + 1\<rparr>"
  by (simp add: db_upsert_aquarium_def)

text \<open>
  Claim C8 says that a command on an identity absent from the cache raises
  \<open>NotFoundError\<close>. On the concrete engine, whose only aquarium is 1, the three commands
  named by the claim return normally for aquarium 99 and leave the engine as it was.
\<close>

theorem unknown_aquarium_counterexample:
  "Some 99 \<notin> set (map aq_id (aquariums demo_engine)) \<and> fish demo_engine 99 = None
   \<and> clean_aquarium 99 5 demo_engine = Inr demo_engine
   \<and> adjust_temperature 99 30 demo_engine = Inr demo_engine
   \<and> feed_fish 99 demo_engine = Inr demo_engine"
  by (simp add: demo_engine_def demo_aquarium_def clean_aquarium_def adjust_temperature_def
      feed_fish_def)

text \<open>
  Claim C8, amended. No command of the engine raises \<open>NotFoundError\<close>.
  \<open>clean_aquarium\<close> and \<open>adjust_temperature\<close> on an identity that no cached aquarium
  carries, and \<open>feed_fish\<close> on an identity without cached fish, return normally and
  leave cache, heap, clock and store as they were.
\<close>

theorem unknown_aquarium_no_error:
  "(Some k \<notin> set (map aq_id (aquariums s))
      \<longrightarrow> clean_aquarium k now s = Inr s \<and> adjust_temperature k target s = Inr s)
   \<and> (fish s k = None \<longrightarrow> feed_fish k s = Inr s)
   \<and> clean_aquarium k now s \<noteq> Inl NotFoundError
   \<and> adjust_temperature k target s \<noteq> Inl NotFoundError
   \<and> register_temperature k current s \<noteq> Inl NotFoundError
   \<and> feed_fish k s \<noteq> Inl NotFoundError
   \<and> remove_fish fid k s \<noteq> Inl NotFoundError
   \<and> create_aquarium name target now s \<noteq> Inl NotFoundError
   \<and> create_fish k name sp now s \<noteq> Inl NotFoundError
   \<and> add_task k knd n now s \<noteq> Inl NotFoundError
   \<and> mark_task_done r now s \<noteq> Inl NotFoundError"
proof -
  have "Some k \<notin> set (map aq_id (aquariums s)) \<Longrightarrow> clean_aquarium k now s = Inr s"
    by (simp add: clean_aquarium_def first_match_none)
  moreover have "Some k \<notin> set (map aq_id (aquariums s)) \<Longrightarrow> adjust_temperature k target s = Inr s"
    by (simp add: adjust_temperature_def first_match_none)
  moreover have "fish s k = None \<Longrightarrow> feed_fish k s = Inr s"
    by (simp add: feed_fish_def)
  moreover have "clean_aquarium k now s \<noteq> Inl NotFoundError"
    by (simp add: clean_aquarium_def split: prod.splits)
  moreover have "adjust_temperature k target s \<noteq> Inl NotFoundError"
    by (simp add: adjust_temperature_def split: prod.splits)
  moreover have "register_temperature k current s \<noteq> Inl NotFoundError"
    by (simp add: register_temperature_def split: prod.splits)
  moreover have "feed_fish k s \<noteq> Inl NotFoundError"
    by (simp add: feed_fish_def Let_def)
  moreover have "remove_fish fid k s \<noteq> Inl NotFoundError"
    by (simp add: remove_fish_def db_delete_fish_def Let_def)
  moreover have "create_aquarium name target now s \<noteq> Inl NotFoundError"
    by (simp add: create_aquarium_def db_upsert_aquarium_def Let_def)
  moreover have "create_fish k name sp now s \<noteq> Inl NotFoundError"
    by (simp add: create_fish_def db_insert_fish_def Let_def)
  moreover have "add_task k knd n now s \<noteq> Inl NotFoundError"
    by (simp add: add_task_def db_upsert_task_def Let_def)
  moreover have "mark_task_done r now s \<noteq> Inl NotFoundError"
    by (auto simp: mark_task_done_def db_upsert_task_def Let_def split: option.splits sum.splits if_splits)
  ultimately show ?thesis by blast
qed

theorem unknown_aquarium_no_error_witness:
  "Some 99 \<notin> set (map aq_id (aquariums demo_engine)) \<and> fish demo_engine 99 = None
   \<and> clean_aquarium 99 5 demo_engine = Inr demo_engine
   \<and> adjust_temperature 99 30 demo_engine = Inr demo_engine
   \<and> feed_fish 99 demo_engine = Inr demo_engine"
proof -
  have h: "Some 99 \<notin> set (map aq_id (aquariums demo_engine))" "fish demo_engine 99 = None"
    by (simp_all add: demo_engine_def demo_aquarium_def)
  from unknown_aquarium_no_error[where k = 99 and s = demo_engine and now = 5 and target = 30] h
  show ?thesis by blast
qed

text \<open>
  Claim C10. \<open>register_temperature\<close> assigns the given value, whatever it is, to the
  current temperature of the first cached aquarium with the given identity and writes
  that aquarium to its row of the store; identity, name, target temperature, cleanliness
  and last-cleaned timestamp of the aquarium, the other aquariums, the fish, the tasks
  and the clock stay as they were. When no cached aquarium has the identity, the engine
  and the store are unchanged.
\<close>

theorem register_temperature_frame:
  "(Some k \<notin> set (map aq_id (aquariums s)) \<longrightarrow> register_temperature k c s = Inr s)
   \<and> (i < length (aquariums s) \<and> aq_id (aquariums s ! i) = Some k
        \<and> (\<forall>j<i. aq_id (aquariums s ! j) \<noteq> Some k)
      \<longrightarrow> (\<exists>s'. register_temperature k c s = Inr s'
             \<and> aquariums s' = (aquariums s)[i := (aquariums s ! i)\<lparr>current_temperature := c\<rparr>]
             \<and> current_temperature (aquariums s' ! i) = c
             \<and> aq_id (aquariums s' ! i) = Some k
             \<and> aq_name (aquariums s' ! i) = aq_name (aquariums s ! i)
             \<and> target_temperature (aquariums s' ! i) = target_temperature (aquariums s ! i)
             \<and> cleanliness (aquariums s' ! i) = cleanliness (aquariums s ! i)
             \<and> last_cleaned_at (aquariums s' ! i) = last_cleaned_at (aquariums s ! i)
             \<and> fish s' = fish s \<and> tasks s' = tasks s \<and> heap s' = heap s
             \<and> last_tick s' = last_tick s
             \<and> aquarium_rows (db s')
                 = map (\<lambda>row. if aq_id row = Some k then aquariums s' ! i else row)
                     (aquarium_rows (db s))
             \<and> fish_rows (db s') = fish_rows (db s) \<and> task_rows (db s') = task_rows (db s)
             \<and> commits (db s') = commits (db s) + 1))"
proof (intro conjI impI)
  assume "Some k \<notin> set (map aq_id (aquariums s))"
  then show "register_temperature k c s = Inr s"
    by (simp add: register_temperature_def first_match_none)
next
  assume h: "i < length (aquariums s) \<and> aq_id (aquariums s ! i) = Some k
        \<and> (\<forall>j<i. aq_id (aquariums s ! j) \<noteq> Some k)"
  let ?a = "(aquariums s ! i)\<lparr>current_temperature := c\<rparr>"
  let ?body = "\<lambda>a d. (let a' = a\<lparr>current_temperature := c\<rparr> in (a', snd (db_upsert_aquarium a' d)))"
  have id: "aq_id ?a = Some k" using h by simp
  have fm: "first_match k ?body (aquariums s) (db s)
              = ((aquariums s)[i := ?a], snd (db_upsert_aquarium ?a (db s)))"
    using h first_match_at[of i "aquariums s" k ?body "db s"] by (simp add: Let_def)
  have r: "register_temperature k c s
             = Inr (s\<lparr>db := snd (db_upsert_aquarium ?a (db s)), aquariums := (aquariums s)[i := ?a]\<rparr>)"
    by (simp add: register_temperature_def fm)
  show "\<exists>s'. register_temperature k c s = Inr s'
             \<and> aquariums s' = (aquariums s)[i := (aquariums s ! i)\<lparr>current_temperature := c\<rparr>]
             \<and> current_temperature (aquariums s' ! i) = c
             \<and> aq_id (aquariums s' ! i) = Some k
             \<and> aq_name (aquariums s' ! i) = aq_name (aquariums s ! i)
             \<and> target_temperature (aquariums s' ! i) = target_temperature (aquariums s ! i)
             \<and> cleanliness (aquariums s' ! i) = cleanliness (aquariums s ! i)
             \<and> last_cleaned_at (aquariums s' ! i) = last_cleaned_at (aquariums s ! i)
             \<and> fish s' = fish s \<and> tasks s' = tasks s \<and> heap s' = heap s
             \<and> last_tick s' = last_tick s
             \<and> aquarium_rows (db s')
                 = map (\<lambda>row. if aq_id row = Some k then aquariums s' ! i else row)
                     (aquarium_rows (db s))
             \<and> fish_rows (db s') = fish_rows (db s) \<and> task_rows (db s') = task_rows (db s)
             \<and> commits (db s') = commits (db s) + 1"
    unfolding r using h by (simp add: snd_upsert_existing[OF id])
qed

theorem register_temperature_frame_witness:
  "Some 99 \<notin> set (map aq_id (aquariums demo_engine))
   \<and> register_temperature 99 31 demo_engine = Inr demo_engine
   \<and> (0::nat) < length (aquariums demo_engine) \<and> aq_id (aquariums demo_engine ! 0) = Some 1
   \<and> (\<exists>s'. register_temperature 1 (- 400) demo_engine = Inr s'
         \<and> aquariums s' = [demo_aquarium\<lparr>current_temperature := - 400\<rparr>]
         \<and> aquarium_rows (db s') = [demo_aquarium\<lparr>current_temperature := - 400\<rparr>]
         \<and> commits (db s') = 1)"
proof -
  have h: "Some 99 \<notin> set (map aq_id (aquariums demo_engine))"
    "(0::nat) < length (aquariums demo_engine) \<and> aq_id (aquariums demo_engine ! 0) = Some 1
       \<and> (\<forall>j<0. aq_id (aquariums demo_engine ! j) \<noteq> Some 1)"
    by (simp_all add: demo_engine_def demo_aquarium_def)
  from register_temperature_frame[where k = 99 and s = demo_engine and c = 31 and i = 0]
    register_temperature_frame[where k = 1 and s = demo_engine and c = "- 400" and i = 0] h
  show ?thesis
    by (auto simp: demo_engine_def demo_db_def demo_aquarium_def)
qed

section \<open>Properties of the reminders\<close>

lemma deref_append_new: "deref (h @ [t]) (length h) = Some t"
  by (simp add: deref_def)

lemma deref_update: "deref h r = Some t \<Longrightarrow> deref (h[r := t']) r = Some t'"
  by (auto simp: deref_def split: if_splits)

lemma add_task_overflow:
  "\<not> (timedelta_ok (timedelta_minutes n) \<and> datetime_ok (now - timedelta_minutes n))
     \<Longrightarrow> add_task k knd n now s = Inl OverflowError"
  by (auto simp: add_task_def)

lemma add_task_result:
  assumes "has_aquarium_row k (db s)"
    and "timedelta_ok (timedelta_minutes n)" and "datetime_ok (now - timedelta_minutes n)"
  shows "\<exists>i d'. add_task k knd n now s
           = Inr (length (heap s),
                  s\<lparr>db := d',
                    tasks := (tasks s)(k \<mapsto> tasks_for k s @ [length (heap s)]),
                    heap := heap s @ [\<lparr>task_id = Some i, task_aquarium_id = k, kind = knd,
                                       interval_minutes = n,
                                       last_run_at = now - timedelta_minutes n\<rparr>]\<rparr>)
           \<and> \<lparr>task_id = Some i, task_aquarium_id = k, kind = knd, interval_minutes = n,
               last_run_at = now - timedelta_minutes n\<rparr> \<in> set (task_rows d')"
proof -
  let ?i = "next_rowid (task_seq (db s)) (map task_id (task_rows (db s)))"
  let ?t = "\<lparr>task_id = Some ?i, task_aquarium_id = k, kind = knd, interval_minutes = n,
             last_run_at = now - timedelta_minutes n\<rparr>"
  let ?d = "(db s)\<lparr>task_rows := task_rows (db s) @ [?t], task_seq := ?i,
                   commits := commits (db s) + 1\<rparr>"
  show ?thesis
    using assms
    by (intro exI[of _ ?i] exI[of _ ?d])
       (simp add: add_task_def db_upsert_task_def Let_def tasks_for_def)
qed

lemma mark_task_done_result:
  assumes "deref (heap s) r = Some t" and "task_id t = Some i"
  shows "mark_task_done r now s
           = Inr (s\<lparr>db := db_update_task_timestamp i now (db s),
                    heap := (heap s)[r := t\<lparr>last_run_at := now\<rparr>]\<rparr>)"
  using assms by (simp add: mark_task_done_def Let_def)

lemma timestamp_row_kept:
  assumes "row \<in> set (task_rows d)" and "task_id row = Some i"
  shows "row\<lparr>last_run_at := now\<rparr> \<in> set (task_rows (db_update_task_timestamp i now d))"
proof -
  have "(\<lambda>r. if task_id r = Some i then r\<lparr>last_run_at := now\<rparr> else r) row
          \<in> (\<lambda>r. if task_id r = Some i then r\<lparr>last_run_at := now\<rparr> else r) ` set (task_rows d)"
    using assms(1) by (rule imageI)
  then show ?thesis
    using assms(2) by (simp add: db_update_task_timestamp_def)
qed

text \<open>
  Claim C6. When the interval is a duration that \<^verbatim>\<open>timedelta\<close> accepts and \<open>now\<close> minus
  the interval is a \<^verbatim>\<open>datetime\<close>, \<open>add_task\<close> for a cached aquarium whose row is in the
  store returns a task whose last run is \<open>now\<close> minus its interval, so that the task is
  due at once and at every later instant; otherwise \<open>add_task\<close> raises
  \<open>OverflowError\<close> and no task is created. \<open>mark_task_done\<close> on a cached task that has an identity, as every
  task made by \<open>add_task\<close> has, sets the last run of the object to \<open>now\<close>, sets the last
  run of its row in the store to \<open>now\<close>, and afterwards the task is due exactly from
  \<open>now\<close> plus its interval on.
\<close>

theorem task_lifecycle:
  "(\<not> (timedelta_ok (timedelta_minutes n) \<and> datetime_ok (now - timedelta_minutes n))
      \<longrightarrow> add_task k knd n now s = Inl OverflowError)
   \<and> (timedelta_ok (timedelta_minutes n) \<and> datetime_ok (now - timedelta_minutes n)
        \<and> has_aquarium_row k (db s) \<and> a \<in> set (aquariums s) \<and> aq_id a = Some k
      \<longrightarrow> (\<exists>r s' t. add_task k knd n now s = Inr (r, s')
             \<and> deref (heap s') r = Some t \<and> r \<in> set (tasks_for k s')
             \<and> task_id t \<noteq> None \<and> interval_minutes t = n
             \<and> last_run_at t = now - timedelta_minutes n
             \<and> t \<in> set (task_rows (db s'))
             \<and> (\<forall>now' \<ge> now. (r, a) \<in> set (due_tasks now' s'))))
   \<and> (b \<in> set (aquariums s) \<and> aq_id b = Some k \<and> q \<in> set (tasks_for k s)
        \<and> deref (heap s) q = Some u \<and> task_id u = Some i
      \<longrightarrow> (\<exists>s' u'. mark_task_done q now s = Inr s'
             \<and> deref (heap s') q = Some u' \<and> last_run_at u' = now
             \<and> interval_minutes u' = interval_minutes u \<and> task_id u' = Some i
             \<and> tasks s' = tasks s \<and> aquariums s' = aquariums s
             \<and> (\<forall>row \<in> set (task_rows (db s')). task_id row = Some i \<longrightarrow> last_run_at row = now)
             \<and> ((\<exists>row \<in> set (task_rows (db s)). task_id row = Some i)
                  \<longrightarrow> (\<exists>row \<in> set (task_rows (db s')). task_id row = Some i))
             \<and> (\<forall>now'. (q, b) \<in> set (due_tasks now' s')
                  \<longleftrightarrow> now' \<ge> now + timedelta_minutes (interval_minutes u))))"
proof (intro conjI impI)
  assume "\<not> (timedelta_ok (timedelta_minutes n) \<and> datetime_ok (now - timedelta_minutes n))"
  then show "add_task k knd n now s = Inl OverflowError"
    by (rule add_task_overflow)
next
  assume h: "timedelta_ok (timedelta_minutes n) \<and> datetime_ok (now - timedelta_minutes n)
        \<and> has_aquarium_row k (db s) \<and> a \<in> set (aquariums s) \<and> aq_id a = Some k"
  from add_task_result[of k s n now knd] h obtain j d' where
    r: "add_task k knd n now s
           = Inr (length (heap s),
                  s\<lparr>db := d',
                    tasks := (tasks s)(k \<mapsto> tasks_for k s @ [length (heap s)]),
                    heap := heap s @ [\<lparr>task_id = Some j, task_aquarium_id = k, kind = knd,
                                       interval_minutes = n,
                                       last_run_at = now - timedelta_minutes n\<rparr>]\<rparr>)"
    and row: "\<lparr>task_id = Some j, task_aquarium_id = k, kind = knd, interval_minutes = n,
               last_run_at = now - timedelta_minutes n\<rparr> \<in> set (task_rows d')"
    by blast
  let ?t = "\<lparr>task_id = Some j, task_aquarium_id = k, kind = knd, interval_minutes = n,
               last_run_at = now - timedelta_minutes n\<rparr>"
  let ?s' = "s\<lparr>db := d', tasks := (tasks s)(k \<mapsto> tasks_for k s @ [length (heap s)]),
                    heap := heap s @ [?t]\<rparr>"
  have due: "\<forall>now' \<ge> now. (length (heap s), a) \<in> set (due_tasks now' ?s')"
    using h by (simp add: in_due_tasks due_refs_def tasks_for_def deref_append_new is_due_def)
  show "\<exists>r s' t. add_task k knd n now s = Inr (r, s')
             \<and> deref (heap s') r = Some t \<and> r \<in> set (tasks_for k s')
             \<and> task_id t \<noteq> None \<and> interval_minutes t = n
             \<and> last_run_at t = now - timedelta_minutes n
             \<and> t \<in> set (task_rows (db s'))
             \<and> (\<forall>now' \<ge> now. (r, a) \<in> set (due_tasks now' s'))"
  proof (intro exI[of _ "length (heap s)"] exI[of _ ?s'] exI[of _ ?t] conjI)
    show "add_task k knd n now s = Inr (length (heap s), ?s')" by (rule r)
    show "deref (heap ?s') (length (heap s)) = Some ?t" by (simp add: deref_append_new)
    show "length (heap s) \<in> set (tasks_for k ?s')" by (simp add: tasks_for_def)
    show "task_id ?t \<noteq> None" by simp
    show "interval_minutes ?t = n" by simp
    show "last_run_at ?t = now - timedelta_minutes n" by simp
    show "?t \<in> set (task_rows (db ?s'))" using row by simp
    show "\<forall>now' \<ge> now. (length (heap s), a) \<in> set (due_tasks now' ?s')" by (rule due)
  qed
next
  assume h: "b \<in> set (aquariums s) \<and> aq_id b = Some k \<and> q \<in> set (tasks_for k s)
        \<and> deref (heap s) q = Some u \<and> task_id u = Some i"
  let ?u' = "u\<lparr>last_run_at := now\<rparr>"
  let ?s' = "s\<lparr>db := db_update_task_timestamp i now (db s), heap := (heap s)[q := ?u']\<rparr>"
  have r: "mark_task_done q now s = Inr ?s'"
    using h by (simp add: mark_task_done_result)
  have d: "deref (heap ?s') q = Some ?u'"
    using h by (simp add: deref_update)
  have due: "\<forall>now'. (q, b) \<in> set (due_tasks now' ?s')
               \<longleftrightarrow> now' \<ge> now + timedelta_minutes (interval_minutes u)"
    using h d by (simp add: in_due_tasks due_refs_def tasks_for_def is_due_def)
  show "\<exists>s' u'. mark_task_done q now s = Inr s'
             \<and> deref (heap s') q = Some u' \<and> last_run_at u' = now
             \<and> interval_minutes u' = interval_minutes u \<and> task_id u' = Some i
             \<and> tasks s' = tasks s \<and> aquariums s' = aquariums s
             \<and> (\<forall>row \<in> set (task_rows (db s')). task_id row = Some i \<longrightarrow> last_run_at row = now)
             \<and> ((\<exists>row \<in> set (task_rows (db s)). task_id row = Some i)
                  \<longrightarrow> (\<exists>row \<in> set (task_rows (db s')). task_id row = Some i))
             \<and> (\<forall>now'. (q, b) \<in> set (due_tasks now' s')
                  \<longleftrightarrow> now' \<ge> now + timedelta_minutes (interval_minutes u))"
  proof (intro exI[of _ ?s'] exI[of _ ?u'] conjI)
    show "mark_task_done q now s = Inr ?s'" by (rule r)
    show "deref (heap ?s') q = Some ?u'" by (rule d)
    show "last_run_at ?u' = now" by simp
    show "interval_minutes ?u' = interval_minutes u" by simp
    show "task_id ?u' = Some i" using h by simp
    show "tasks ?s' = tasks s" by simp
    show "aquariums ?s' = aquariums s" by simp
    show "\<forall>row \<in> set (task_rows (db ?s')). task_id row = Some i \<longrightarrow> last_run_at row = now"
      by (auto simp: db_update_task_timestamp_def)
    show "(\<exists>row \<in> set (task_rows (db s)). task_id row = Some i)
            \<longrightarrow> (\<exists>row \<in> set (task_rows (db ?s')). task_id row = Some i)"
    proof
      assume "\<exists>row \<in> set (task_rows (db s)). task_id row = Some i"
      then obtain row where "row \<in> set (task_rows (db s))" "task_id row = Some i" by blast
      from timestamp_row_kept[OF this, of now] \<open>task_id row = Some i\<close>
      show "\<exists>row \<in> set (task_rows (db ?s')). task_id row = Some i"
        by (intro bexI[of _ "row\<lparr>last_run_at := now\<rparr>"]) simp_all
    qed
    show "\<forall>now'. (q, b) \<in> set (due_tasks now' ?s')
            \<longleftrightarrow> now' \<ge> now + timedelta_minutes (interval_minutes u)" by (rule due)
  qed
qed

theorem task_lifecycle_witness:
  "timedelta_ok (timedelta_minutes 1440) \<and> datetime_ok (1000 - timedelta_minutes 1440)
   \<and> \<not> datetime_ok (1000 - timedelta_minutes 2000000000)
   \<and> add_task 1 ''limpeza'' 2000000000 1000 demo_engine = Inl OverflowError
   \<and> has_aquarium_row 1 (db demo_engine) \<and> demo_aquarium \<in> set (aquariums demo_engine)
   \<and> aq_id demo_aquarium = Some 1
   \<and> (\<exists>r s' t. add_task 1 ''limpeza'' 1440 1000 demo_engine = Inr (r, s')
          \<and> deref (heap s') r = Some t
          \<and> last_run_at t = 1000 - timedelta_minutes 1440
          \<and> (r, demo_aquarium) \<in> set (due_tasks 1000 s'))
   \<and> (0::nat) \<in> set (tasks_for 1 demo_engine)
   \<and> deref (heap demo_engine) 0 = Some demo_task \<and> task_id demo_task = Some 1
   \<and> (\<exists>s' u'. mark_task_done 0 500 demo_engine = Inr s'
          \<and> deref (heap s') 0 = Some u' \<and> last_run_at u' = 500
          \<and> (0, demo_aquarium) \<notin> set (due_tasks (500 + timedelta_minutes 240 - 1) s')
          \<and> (0, demo_aquarium) \<in> set (due_tasks (500 + timedelta_minutes 240) s'))"
proof -
  have h: "has_aquarium_row 1 (db demo_engine) \<and> demo_aquarium \<in> set (aquariums demo_engine)
             \<and> aq_id demo_aquarium = Some 1"
    by (simp add: has_aquarium_row_def demo_engine_def demo_db_def demo_aquarium_def)
  have g: "demo_aquarium \<in> set (aquariums demo_engine) \<and> aq_id demo_aquarium = Some 1
             \<and> (0::nat) \<in> set (tasks_for 1 demo_engine)
             \<and> deref (heap demo_engine) 0 = Some demo_task \<and> task_id demo_task = Some 1"
    by (simp add: demo_engine_def demo_aquarium_def tasks_for_def deref_def demo_task_def)
  have i: "interval_minutes demo_task = 240"
    by (simp add: demo_task_def)
  have t: "timedelta_ok (timedelta_minutes 1440) \<and> datetime_ok (1000 - timedelta_minutes 1440)"
    by (simp add: timedelta_ok_def datetime_ok_def timedelta_minutes_def)
  have o: "\<not> datetime_ok (1000 - timedelta_minutes 2000000000)"
    by (simp add: datetime_ok_def timedelta_minutes_def)
  from task_lifecycle[where s = demo_engine and k = 1 and now = 1000
      and knd = "''limpeza''" and n = 2000000000] o
  have v: "add_task 1 ''limpeza'' 2000000000 1000 demo_engine = Inl OverflowError"
    by blast
  from task_lifecycle[where s = demo_engine and k = 1 and a = demo_aquarium and now = 1000
      and knd = "''limpeza''" and n = 1440] h t
  have a: "\<exists>r s' t. add_task 1 ''limpeza'' 1440 1000 demo_engine = Inr (r, s')
          \<and> deref (heap s') r = Some t
          \<and> last_run_at t = 1000 - timedelta_minutes 1440
          \<and> (r, demo_aquarium) \<in> set (due_tasks 1000 s')"
    by fastforce
  from task_lifecycle[where s = demo_engine and k = 1 and b = demo_aquarium and now = 500
      and q = 0 and u = demo_task and i = 1] g
  have b: "\<exists>s' u'. mark_task_done 0 500 demo_engine = Inr s'
          \<and> deref (heap s') 0 = Some u' \<and> last_run_at u' = 500
          \<and> (0, demo_aquarium) \<notin> set (due_tasks (500 + timedelta_minutes 240 - 1) s')
          \<and> (0, demo_aquarium) \<in> set (due_tasks (500 + timedelta_minutes 240) s')"
    unfolding i by fastforce
  from h g a b t o v show ?thesis by blast
qed

section \<open>The value ranges\<close>

lemma tick_aquarium_ok: "0 \<le> m \<Longrightarrow> aquarium_ok a \<Longrightarrow> aquarium_ok (tick_aquarium m a)"
  by (auto simp: aquarium_ok_def tick_aquarium_def)

lemma tick_fish_ok: "0 \<le> m \<Longrightarrow> fish_ok f \<Longrightarrow> fish_ok (tick_fish m a f)"
  by (auto simp: fish_ok_def tick_fish_def Let_def)

lemma feed_one_ok: "fish_ok f \<Longrightarrow> fish_ok (feed_one f)"
  by (auto simp: fish_ok_def feed_one_def)

lemma update_fish_row_ok:
  "fish_ok f \<Longrightarrow> list_all fish_ok rows \<Longrightarrow> list_all fish_ok (update_fish_row f rows)"
  by (auto simp: update_fish_row_def list_all_iff fish_ok_def split: option.splits)

lemma fold_update_fish_row_ok:
  "list_all fish_ok fs \<Longrightarrow> list_all fish_ok rows \<Longrightarrow> list_all fish_ok (fold update_fish_row fs rows)"
  by (induction fs arbitrary: rows) (simp_all add: update_fish_row_ok)

lemma db_update_fish_ok: "list_all fish_ok fs \<Longrightarrow> db_ok d \<Longrightarrow> db_ok (db_update_fish fs d)"
  by (simp add: db_ok_def db_update_fish_def fold_update_fish_row_ok)

lemma db_upsert_aquarium_ok:
  "aquarium_ok a \<Longrightarrow> db_ok d \<Longrightarrow>
     aquarium_ok (fst (db_upsert_aquarium a d)) \<and> db_ok (snd (db_upsert_aquarium a d))"
  by (auto simp: db_ok_def db_upsert_aquarium_def Let_def list_all_iff aquarium_ok_def
      split: option.splits)

lemma tick_loop_ok:
  assumes "0 \<le> m" and "list_all aquarium_ok as"
    and "\<forall>k fs. fm k = Some fs \<longrightarrow> list_all fish_ok fs" and "db_ok d"
  shows "list_all aquarium_ok (fst (tick_loop m as fm d))
         \<and> (\<forall>k fs. fst (snd (tick_loop m as fm d)) k = Some fs \<longrightarrow> list_all fish_ok fs)
         \<and> db_ok (snd (snd (tick_loop m as fm d)))"
  using assms(2,3,4)
proof (induction as arbitrary: fm d)
  case Nil
  then show ?case by simp
next
  case (Cons a as)
  show ?case
  proof (cases "aq_id a")
    case None
    with Cons.IH[of fm d] Cons.prems show ?thesis
      by (simp add: case_prod_beta)
  next
    case (Some k)
    let ?a' = "tick_aquarium m a"
    let ?fishes = "map (tick_fish m ?a') (case fm k of None \<Rightarrow> [] | Some fs \<Rightarrow> fs)"
    let ?fm1 = "(case fm k of None \<Rightarrow> fm | Some fs \<Rightarrow> fm(k \<mapsto> ?fishes))"
    let ?d2 = "snd (db_upsert_aquarium ?a' (db_update_fish ?fishes d))"
    have a': "aquarium_ok ?a'"
      using Cons.prems(1) assms(1) by (simp add: tick_aquarium_ok)
    have fs: "list_all fish_ok ?fishes"
    proof (cases "fm k")
      case None
      then show ?thesis by simp
    next
      case (Some fs0)
      with Cons.prems(2) have "list_all fish_ok fs0" by blast
      with Some assms(1) show ?thesis
        by (simp add: list_all_iff tick_fish_ok)
    qed
    have fm1: "\<forall>k fs. ?fm1 k = Some fs \<longrightarrow> list_all fish_ok fs"
      using Cons.prems(2) fs by (cases "fm k") auto
    have d2: "db_ok ?d2"
      using a' fs Cons.prems(3) by (simp add: db_update_fish_ok db_upsert_aquarium_ok)
    have rest: "list_all aquarium_ok as" using Cons.prems(1) by simp
    from Cons.IH[OF rest fm1 d2] a' Some show ?thesis
      by (simp add: Let_def case_prod_beta)
  qed
qed

lemma first_match_ok:
  assumes "\<And>a d. db_ok d \<Longrightarrow> aq_id a = Some k \<Longrightarrow>
             aquarium_ok (fst (body a d)) \<and> db_ok (snd (body a d))"
    and "list_all aquarium_ok as" and "db_ok d"
  shows "list_all aquarium_ok (fst (first_match k body as d))
         \<and> db_ok (snd (first_match k body as d))"
  using assms(2,3)
  by (induction as) (auto simp: case_prod_beta assms(1))

lemma tick_ok:
  assumes "engine_ok s"
  shows "engine_ok (tick now s)"
proof (cases "now - last_tick s \<le> 0")
  case True
  with assms show ?thesis by (simp add: tick_def)
next
  case False
  then have m: "0 \<le> elapsed_minutes now s"
    using elapsed_minutes_pos[of now s] by simp
  from assms have "list_all aquarium_ok (aquariums s)"
    "\<forall>k fs. fish s k = Some fs \<longrightarrow> list_all fish_ok fs" "db_ok (db s)"
    by (simp_all add: engine_ok_def)
  from tick_loop_ok[OF m this] False show ?thesis
    by (simp add: tick_def engine_ok_def case_prod_beta)
qed

lemma feed_fish_ok:
  assumes "engine_ok s"
  shows "\<exists>s'. feed_fish k s = Inr s' \<and> engine_ok s'"
proof (cases "fish s k")
  case None
  with assms show ?thesis by (simp add: feed_fish_def)
next
  case (Some fs)
  with assms have "list_all fish_ok fs" by (simp add: engine_ok_def)
  then have u: "list_all fish_ok (map feed_one fs)"
    by (simp add: list_all_iff feed_one_ok)
  with assms have "db_ok (db_update_fish (map feed_one fs) (db s))"
    by (simp add: engine_ok_def db_update_fish_ok)
  with assms u Some show ?thesis
    by (auto simp: feed_fish_def Let_def engine_ok_def)
qed

lemma db_set_aquarium_cleaned_ok: "db_ok d \<Longrightarrow> db_ok (db_set_aquarium_cleaned k ts d)"
  by (auto simp: db_ok_def db_set_aquarium_cleaned_def list_all_iff aquarium_ok_def)

lemma clean_aquarium_ok:
  assumes "engine_ok s"
  shows "\<exists>s'. clean_aquarium k now s = Inr s' \<and> engine_ok s'"
proof -
  let ?body = "\<lambda>a d. (a\<lparr>cleanliness := 100, last_cleaned_at := now\<rparr>,
                      db_set_aquarium_cleaned k now d)"
  have "list_all aquarium_ok (fst (first_match k ?body (aquariums s) (db s)))
        \<and> db_ok (snd (first_match k ?body (aquariums s) (db s)))"
    using assms
    by (intro first_match_ok) (simp_all add: engine_ok_def aquarium_ok_def db_set_aquarium_cleaned_ok)
  with assms show ?thesis
    by (simp add: clean_aquarium_def engine_ok_def case_prod_beta)
qed

lemma upsert_body_ok:
  assumes "\<And>a. aquarium_ok a \<Longrightarrow> aquarium_ok (g a)"
    and "list_all aquarium_ok as" and "db_ok d"
  shows "list_all aquarium_ok
           (fst (first_match k (\<lambda>a d. (let a' = g a in (a', snd (db_upsert_aquarium a' d)))) as d))
         \<and> db_ok
           (snd (first_match k (\<lambda>a d. (let a' = g a in (a', snd (db_upsert_aquarium a' d)))) as d))"
  using assms(2,3)
  by (induction as) (auto simp: case_prod_beta Let_def assms(1) db_upsert_aquarium_ok)

lemma adjust_temperature_ok:
  assumes "engine_ok s"
  shows "\<exists>s'. adjust_temperature k target s = Inr s' \<and> engine_ok s'"
proof -
  have "aquarium_ok (a\<lparr>target_temperature := target\<rparr>)" if "aquarium_ok a" for a
    using that by (simp add: aquarium_ok_def)
  from upsert_body_ok[of "\<lambda>a. a\<lparr>target_temperature := target\<rparr>" "aquariums s" "db s" k, OF this]
    assms
  show ?thesis
    by (simp add: adjust_temperature_def engine_ok_def case_prod_beta)
qed

lemma register_temperature_ok:
  assumes "engine_ok s"
  shows "\<exists>s'. register_temperature k current s = Inr s' \<and> engine_ok s'"
proof -
  have "aquarium_ok (a\<lparr>current_temperature := current\<rparr>)" if "aquarium_ok a" for a
    using that by (simp add: aquarium_ok_def)
  from upsert_body_ok[of "\<lambda>a. a\<lparr>current_temperature := current\<rparr>" "aquariums s" "db s" k, OF this]
    assms
  show ?thesis
    by (simp add: register_temperature_def engine_ok_def case_prod_beta)
qed

lemma create_aquarium_ok:
  assumes "engine_ok s"
  shows "\<exists>a s'. create_aquarium name target now s = Inr (a, s') \<and> aquarium_ok a
           \<and> cleanliness a = 90 \<and> engine_ok s'"
  using assms
  by (auto simp: create_aquarium_def db_upsert_aquarium_def Let_def engine_ok_def db_ok_def
      aquarium_ok_def)

lemma fish_cache_ok:
  assumes "engine_ok s"
  shows "list_all fish_ok (case fish s k of None \<Rightarrow> [] | Some fs \<Rightarrow> fs)"
  using assms by (cases "fish s k") (simp_all add: engine_ok_def)

lemma fish_upd_ok:
  assumes "engine_ok s" and "list_all fish_ok fs" and "db_ok d"
  shows "engine_ok (s\<lparr>db := d, fish := (fish s)(k \<mapsto> fs)\<rparr>)"
  using assms by (simp add: engine_ok_def)

lemma create_fish_ok:
  assumes "engine_ok s"
  shows "(has_aquarium_row k (db s) \<longrightarrow> (\<exists>f s'. create_fish k name sp now s = Inr (f, s')))
         \<and> (\<forall>f s'. create_fish k name sp now s = Inr (f, s')
               \<longrightarrow> hunger f = 35 \<and> health f = 95 \<and> fish_ok f \<and> engine_ok s')"
proof (cases "has_aquarium_row k (db s)")
  case False
  then show ?thesis by (simp add: create_fish_def db_insert_fish_def)
next
  case True
  let ?f = "\<lparr>fish_id = Some (next_rowid (fish_seq (db s)) (map fish_id (fish_rows (db s)))),
             fish_aquarium_id = k, fish_name = name, species = sp,
             hunger = 35, health = 95, created_at = now\<rparr>"
  let ?d = "(db s)\<lparr>fish_rows := fish_rows (db s) @ [?f], fish_seq := the (fish_id ?f),
                   commits := commits (db s) + 1\<rparr>"
  let ?fs = "(case fish s k of None \<Rightarrow> [] | Some fs \<Rightarrow> fs) @ [?f]"
  have r: "create_fish k name sp now s = Inr (?f, s\<lparr>db := ?d, fish := (fish s)(k \<mapsto> ?fs)\<rparr>)"
    using True by (simp add: create_fish_def db_insert_fish_def Let_def)
  have f: "fish_ok ?f" by (simp add: fish_ok_def)
  have d: "db_ok ?d" using assms f by (simp add: engine_ok_def db_ok_def)
  have fs: "list_all fish_ok ?fs" using fish_cache_ok[OF assms, of k] f by simp
  show ?thesis
    unfolding r using f fish_upd_ok[OF assms fs d, of k] by simp
qed

lemma refresh_ok:
  assumes "db_ok d"
  shows "aquarium_ok (fst (db_refresh_aquarium_environment a td cd d))
         \<and> db_ok (snd (db_refresh_aquarium_environment a td cd d))"
  using assms
  by (auto simp: db_refresh_aquarium_environment_def Let_def db_ok_def aquarium_ok_def
      list_all_iff)

lemma remove_fish_cache_ok:
  assumes "engine_ok s"
  shows "engine_ok (remove_fish_cache fid k s)"
proof -
  let ?fs = "filter (\<lambda>f. fish_id f \<noteq> Some fid) (case fish s k of None \<Rightarrow> [] | Some fs \<Rightarrow> fs)"
  have fs: "list_all fish_ok ?fs"
    using fish_cache_ok[OF assms, of k] by (simp add: list_all_iff)
  from assms fs show ?thesis
    by (simp add: remove_fish_cache_def Let_def engine_ok_def)
qed

lemma remove_fish_ok:
  assumes "engine_ok s"
  shows "(sqlite_int_ok fid \<longrightarrow> (\<exists>s'. remove_fish fid k s = Inr s'))
         \<and> (\<forall>s'. remove_fish fid k s = Inr s' \<longrightarrow> engine_ok s')"
proof -
  have c: "engine_ok (remove_fish_cache fid k s)"
    by (rule remove_fish_cache_ok[OF assms])
  have "engine_ok (s1\<lparr>db := d'\<rparr>)" if "engine_ok s1" and "db_delete_fish fid (db s1) = Inr d'"
    for s1 d'
    using that
    by (auto simp: db_delete_fish_def engine_ok_def db_ok_def list_all_iff split: if_splits)
  with c show ?thesis
    by (auto simp: remove_fish_def Let_def db_delete_fish_def split: sum.splits if_splits)
qed

lemma add_task_ok:
  assumes "engine_ok s"
  shows "\<forall>r s'. add_task k knd n now s = Inr (r, s') \<longrightarrow> engine_ok s'"
  using assms
  by (auto simp: add_task_def db_upsert_task_def Let_def engine_ok_def db_ok_def
      split: if_splits)

lemma mark_task_done_ok:
  assumes "engine_ok s"
  shows "\<forall>s'. mark_task_done r now s = Inr s' \<longrightarrow> engine_ok s'"
  using assms
  by (auto simp: mark_task_done_def db_upsert_task_def db_update_task_timestamp_def Let_def
      engine_ok_def db_ok_def split: option.splits if_splits sum.splits)

text \<open>
  Claim C9. If the cleanliness of every aquarium is between 0 and 100, the hunger of
  every fish between 0 and 100 and its health between 10 and 100, in the cache and in
  the store, then the same holds after \<open>tick\<close>, \<open>feed_fish\<close>, \<open>clean_aquarium\<close>,
  \<open>create_aquarium\<close> and \<open>create_fish\<close>, and after the other commands of the engine
  when they return; \<open>remove_fish\<close> returns when the identity of the fish fits in 64
  bits, and the cache it has rewritten before the store raises is in range too. The
  environment adjustment of the store returns an aquarium in range and keeps the rows in
  range.
\<close>

theorem ranges_preserved:
  "(engine_ok s \<longrightarrow>
      engine_ok (tick now s)
      \<and> (\<exists>s'. feed_fish k s = Inr s' \<and> engine_ok s')
      \<and> (\<exists>s'. clean_aquarium k now s = Inr s' \<and> engine_ok s')
      \<and> (\<exists>a s'. create_aquarium name target now s = Inr (a, s') \<and> aquarium_ok a \<and> engine_ok s')
      \<and> (has_aquarium_row k (db s) \<longrightarrow> (\<exists>f s'. create_fish k name sp now s = Inr (f, s')))
      \<and> (\<forall>f s'. create_fish k name sp now s = Inr (f, s') \<longrightarrow> fish_ok f \<and> engine_ok s')
      \<and> (\<exists>s'. adjust_temperature k target s = Inr s' \<and> engine_ok s')
      \<and> (\<exists>s'. register_temperature k target s = Inr s' \<and> engine_ok s')
      \<and> (sqlite_int_ok fid \<longrightarrow> (\<exists>s'. remove_fish fid k s = Inr s'))
      \<and> (\<forall>s'. remove_fish fid k s = Inr s' \<longrightarrow> engine_ok s')
      \<and> engine_ok (remove_fish_cache fid k s)
      \<and> (\<forall>r s'. add_task k knd n now s = Inr (r, s') \<longrightarrow> engine_ok s')
      \<and> (\<forall>s'. mark_task_done r now s = Inr s' \<longrightarrow> engine_ok s'))
   \<and> (db_ok d \<longrightarrow>
        aquarium_ok (fst (db_refresh_aquarium_environment a td cd d))
        \<and> db_ok (snd (db_refresh_aquarium_environment a td cd d)))"
proof (intro conjI impI)
  assume "db_ok d"
  then show "aquarium_ok (fst (db_refresh_aquarium_environment a td cd d))"
    "db_ok (snd (db_refresh_aquarium_environment a td cd d))"
    using refresh_ok by simp_all
next
  assume s: "engine_ok s"
  show "engine_ok (tick now s)" by (rule tick_ok[OF s])
  show "\<exists>s'. feed_fish k s = Inr s' \<and> engine_ok s'" by (rule feed_fish_ok[OF s])
  show "\<exists>s'. clean_aquarium k now s = Inr s' \<and> engine_ok s'" by (rule clean_aquarium_ok[OF s])
  show "\<exists>a s'. create_aquarium name target now s = Inr (a, s') \<and> aquarium_ok a \<and> engine_ok s'"
    using create_aquarium_ok[OF s, of name target now] by blast
  show "\<exists>f s'. create_fish k name sp now s = Inr (f, s')" if "has_aquarium_row k (db s)"
    using create_fish_ok[OF s, of k name sp now] that by blast
  show "\<forall>f s'. create_fish k name sp now s = Inr (f, s') \<longrightarrow> fish_ok f \<and> engine_ok s'"
    using create_fish_ok[OF s, of k name sp now] by blast
  show "\<exists>s'. adjust_temperature k target s = Inr s' \<and> engine_ok s'"
    by (rule adjust_temperature_ok[OF s])
  show "\<exists>s'. register_temperature k target s = Inr s' \<and> engine_ok s'"
    by (rule register_temperature_ok[OF s])
  show "\<exists>s'. remove_fish fid k s = Inr s'" if "sqlite_int_ok fid"
    using remove_fish_ok[OF s, of fid k] that by blast
  show "\<forall>s'. remove_fish fid k s = Inr s' \<longrightarrow> engine_ok s'"
    using remove_fish_ok[OF s, of fid k] by blast
  show "engine_ok (remove_fish_cache fid k s)" by (rule remove_fish_cache_ok[OF s])
  show "\<forall>r s'. add_task k knd n now s = Inr (r, s') \<longrightarrow> engine_ok s'" by (rule add_task_ok[OF s])
  show "\<forall>s'. mark_task_done r now s = Inr s' \<longrightarrow> engine_ok s'" by (rule mark_task_done_ok[OF s])
qed

theorem ranges_preserved_witness:
  "engine_ok demo_engine \<and> db_ok demo_db \<and> has_aquarium_row 1 (db demo_engine)
   \<and> engine_ok (tick 3000000000 demo_engine)
   \<and> (\<exists>s'. feed_fish 1 demo_engine = Inr s' \<and> engine_ok s')
   \<and> (\<exists>s'. clean_aquarium 1 3000000000 demo_engine = Inr s' \<and> engine_ok s')
   \<and> (\<exists>a s'. create_aquarium ''Sala Verde'' 24 3000000000 demo_engine = Inr (a, s')
          \<and> aquarium_ok a \<and> engine_ok s')
   \<and> (\<exists>f s'. create_fish 1 ''Foguete'' ''Guppy'' 3000000000 demo_engine = Inr (f, s')
          \<and> fish_ok f \<and> engine_ok s')
   \<and> sqlite_int_ok 1
   \<and> (\<exists>s'. remove_fish 1 1 demo_engine = Inr s' \<and> engine_ok s')
   \<and> remove_fish 9223372036854775808 1 demo_engine = Inl OverflowError
   \<and> engine_ok (remove_fish_cache 9223372036854775808 1 demo_engine)
   \<and> aquarium_ok (fst (db_refresh_aquarium_environment demo_aquarium 3 50 demo_db))
   \<and> cleanliness (fst (db_refresh_aquarium_environment demo_aquarium 3 50 demo_db)) = 100
   \<and> db_ok (snd (db_refresh_aquarium_environment demo_aquarium 3 50 demo_db))"
proof -
  have d: "db_ok demo_db"
    by (simp add: db_ok_def demo_db_def aquarium_ok_def fish_ok_def demo_aquarium_def
        demo_fish_def)
  have f: "fish demo_engine k = Some fs \<longrightarrow> list_all fish_ok fs" for k fs
    by (auto simp: demo_engine_def fish_ok_def demo_fish_def)
  have e: "engine_ok demo_engine"
    unfolding engine_ok_def using d f
    by (simp add: demo_engine_def aquarium_ok_def demo_aquarium_def)
  have r: "has_aquarium_row 1 (db demo_engine)"
    by (simp add: has_aquarium_row_def demo_engine_def demo_db_def demo_aquarium_def)
  have c: "cleanliness (fst (db_refresh_aquarium_environment demo_aquarium 3 50 demo_db)) = 100"
    by (simp add: db_refresh_aquarium_environment_def Let_def demo_aquarium_def)
  from ranges_preserved[where s = demo_engine and now = 3000000000 and k = 1
      and name = "''Sala Verde''" and target = 24 and d = demo_db and a = demo_aquarium
      and td = 3 and cd = 50] e d
  have 1: "engine_ok (tick 3000000000 demo_engine)"
    and 2: "\<exists>s'. feed_fish 1 demo_engine = Inr s' \<and> engine_ok s'"
    and 3: "\<exists>s'. clean_aquarium 1 3000000000 demo_engine = Inr s' \<and> engine_ok s'"
    and 4: "\<exists>a s'. create_aquarium ''Sala Verde'' 24 3000000000 demo_engine = Inr (a, s')
          \<and> aquarium_ok a \<and> engine_ok s'"
    and 5: "aquarium_ok (fst (db_refresh_aquarium_environment demo_aquarium 3 50 demo_db))"
      "db_ok (snd (db_refresh_aquarium_environment demo_aquarium 3 50 demo_db))"
    by blast+
  from ranges_preserved[where s = demo_engine and now = 3000000000 and k = 1
      and name = "''Foguete''" and sp = "''Guppy''"] e r
  have 6: "\<exists>f s'. create_fish 1 ''Foguete'' ''Guppy'' 3000000000 demo_engine = Inr (f, s')
          \<and> fish_ok f \<and> engine_ok s'"
    by blast
  have i: "sqlite_int_ok 1"
    by (simp add: sqlite_int_ok_def)
  from ranges_preserved[where s = demo_engine and fid = 1 and k = 1] e i
  have 7: "\<exists>s'. remove_fish 1 1 demo_engine = Inr s' \<and> engine_ok s'"
    by blast
  have 8: "remove_fish 9223372036854775808 1 demo_engine = Inl OverflowError"
    by (simp add: remove_fish_def db_delete_fish_def sqlite_int_ok_def Let_def)
  from ranges_preserved[where s = demo_engine and fid = 9223372036854775808 and k = 1] e
  have 9: "engine_ok (remove_fish_cache 9223372036854775808 1 demo_engine)"
    by blast
  from e d r 1 2 3 4 5 6 c i 7 8 9 show ?thesis by blast
qed

section \<open>The identities of the cached aquariums\<close>

text \<open>
  The hypothesis of claim C1 on the identities of the cache holds of the concrete engine
  and is kept by every command: only \<open>create_aquarium\<close> adds an identity, and it is the
  one the store has just assigned.
\<close>

lemma map_filter_append: "List.map_filter f (xs @ ys) = List.map_filter f xs @ List.map_filter f ys"
  by (simp add: List.map_filter_def)

lemma next_rowid_grows:
  "next_rowid seq ids < next_rowid (next_rowid seq ids) (ids @ [Some (next_rowid seq ids)])"
proof -
  let ?xs = "List.map_filter (\<lambda>i. i) ids"
  let ?k = "fold max ?xs seq + 1"
  have "?k \<le> max ?k (fold max ?xs ?k)" by simp
  then show ?thesis
    by (simp add: next_rowid_def map_filter_append)
qed

lemma cached_ids_append:
  "cached_ids (as @ [a]) = cached_ids as @ (case aq_id a of None \<Rightarrow> [] | Some k \<Rightarrow> [k])"
  by (simp add: cached_ids_def map_filter_append split: option.splits)

lemma create_aquarium_ids:
  assumes "cache_ids_ok s" and "create_aquarium name target now s = Inr (a, s')"
  shows "cache_ids_ok s'"
proof -
  let ?k = "next_rowid (aquarium_seq (db s)) (map aq_id (aquarium_rows (db s)))"
  have old: "\<forall>k\<in>set (cached_ids (aquariums s)). k < ?k" "distinct (cached_ids (aquariums s))"
    using assms(1) by (simp_all add: cache_ids_ok_def list_all_iff)
  have s': "aquariums s' = aquariums s @ [a]" "aq_id a = Some ?k"
    "aquarium_seq (db s') = ?k"
    "map aq_id (aquarium_rows (db s')) = map aq_id (aquarium_rows (db s)) @ [Some ?k]"
    using assms(2) by (auto simp: create_aquarium_def db_upsert_aquarium_def Let_def)
  have new: "?k < next_rowid (aquarium_seq (db s')) (map aq_id (aquarium_rows (db s')))"
    unfolding s' by (rule next_rowid_grows)
  show ?thesis
    unfolding cache_ids_ok_def s'(1) cached_ids_append s'(2)
    using old new by (auto simp: list_all_iff)
qed

lemma tick_loop_ids:
  "cached_ids (fst (tick_loop m as fm d)) = cached_ids as"
  by (simp add: tick_loop_aquariums cached_ids_def List.map_filter_def tick_aquarium_def
      filter_map comp_def)

lemma keys_update_fish: "aquarium_keys (db_update_fish fs d) = aquarium_keys d"
  by (simp add: aquarium_keys_def db_update_fish_def)

lemma keys_upsert_existing:
  "aq_id a \<noteq> None \<Longrightarrow> aquarium_keys (snd (db_upsert_aquarium a d)) = aquarium_keys d"
  by (auto simp: aquarium_keys_def db_upsert_aquarium_def)

lemma keys_set_cleaned: "aquarium_keys (db_set_aquarium_cleaned k ts d) = aquarium_keys d"
  by (simp add: aquarium_keys_def db_set_aquarium_cleaned_def)

lemma tick_aquarium_id: "aq_id (tick_aquarium m a) = aq_id a"
  by (simp add: tick_aquarium_def)

lemma tick_loop_keys: "aquarium_keys (snd (snd (tick_loop m as fm d))) = aquarium_keys d"
  by (induction as arbitrary: fm d)
     (simp_all add: Let_def case_prod_beta keys_update_fish keys_upsert_existing tick_aquarium_id
        split: option.splits)

lemma first_match_keys:
  assumes "\<And>a d. aq_id a = Some k \<Longrightarrow>
             aq_id (fst (body a d)) = Some k \<and> aquarium_keys (snd (body a d)) = aquarium_keys d"
  shows "cached_ids (fst (first_match k body as d)) = cached_ids as
         \<and> aquarium_keys (snd (first_match k body as d)) = aquarium_keys d"
  by (induction as) (auto simp: case_prod_beta cached_ids_Cons assms split: option.splits)

lemma cache_ids_ok_keys:
  "cache_ids_ok s \<longleftrightarrow>
     distinct (cached_ids (aquariums s))
     \<and> list_all (\<lambda>k. k < next_rowid (fst (aquarium_keys (db s))) (snd (aquarium_keys (db s))))
          (cached_ids (aquariums s))"
  by (simp add: cache_ids_ok_def aquarium_keys_def)

lemma cache_ids_ok_cong:
  assumes "cache_ids_ok s" and "cached_ids (aquariums s') = cached_ids (aquariums s)"
    and "aquarium_keys (db s') = aquarium_keys (db s)"
  shows "cache_ids_ok s'"
  using assms by (simp add: cache_ids_ok_keys)

lemma cache_ids_ok_preserved:
  assumes "cache_ids_ok s"
  shows "cache_ids_ok (tick now s)"
    and "feed_fish k s = Inr s' \<Longrightarrow> cache_ids_ok s'"
    and "clean_aquarium k now s = Inr s' \<Longrightarrow> cache_ids_ok s'"
    and "adjust_temperature k target s = Inr s' \<Longrightarrow> cache_ids_ok s'"
    and "register_temperature k target s = Inr s' \<Longrightarrow> cache_ids_ok s'"
    and "create_aquarium name target now s = Inr (a, s') \<Longrightarrow> cache_ids_ok s'"
    and "create_fish k name sp now s = Inr (f, s') \<Longrightarrow> cache_ids_ok s'"
    and "remove_fish fid k s = Inr s' \<Longrightarrow> cache_ids_ok s'"
    and "add_task k knd n now s = Inr (r, s') \<Longrightarrow> cache_ids_ok s'"
    and "mark_task_done r now s = Inr s' \<Longrightarrow> cache_ids_ok s'"
proof -
  show "cache_ids_ok (tick now s)"
  proof (cases "now - last_tick s \<le> 0")
    case True
    with assms show ?thesis by (simp add: tick_def)
  next
    case False
    with assms show ?thesis
      using tick_loop_ids[of "elapsed_minutes now s" "aquariums s" "fish s" "db s"]
        tick_loop_keys[of "elapsed_minutes now s" "aquariums s" "fish s" "db s"]
      by (intro cache_ids_ok_cong[OF assms]) (simp_all add: tick_def case_prod_beta)
  qed
  show "cache_ids_ok s'" if "feed_fish k s = Inr s'"
    using that assms
    by (intro cache_ids_ok_cong[OF assms])
       (auto simp: feed_fish_def Let_def keys_update_fish split: if_splits)
  show "cache_ids_ok s'" if "clean_aquarium k now s = Inr s'"
    using that
      first_match_keys[of k "\<lambda>a d. (a\<lparr>cleanliness := 100, last_cleaned_at := now\<rparr>,
                      db_set_aquarium_cleaned k now d)" "aquariums s" "db s"]
    by (intro cache_ids_ok_cong[OF assms])
       (auto simp: clean_aquarium_def case_prod_beta keys_set_cleaned)
  show "cache_ids_ok s'" if "adjust_temperature k target s = Inr s'"
    using that
      first_match_keys[of k "\<lambda>a d. (let a' = a\<lparr>target_temperature := target\<rparr>
                      in (a', snd (db_upsert_aquarium a' d)))" "aquariums s" "db s"]
    by (intro cache_ids_ok_cong[OF assms])
       (auto simp: adjust_temperature_def case_prod_beta Let_def keys_upsert_existing)
  show "cache_ids_ok s'" if "register_temperature k target s = Inr s'"
    using that
      first_match_keys[of k "\<lambda>a d. (let a' = a\<lparr>current_temperature := target\<rparr>
                      in (a', snd (db_upsert_aquarium a' d)))" "aquariums s" "db s"]
    by (intro cache_ids_ok_cong[OF assms])
       (auto simp: register_temperature_def case_prod_beta Let_def keys_upsert_existing)
  show "cache_ids_ok s'" if "create_aquarium name target now s = Inr (a, s')"
    using create_aquarium_ids[OF assms that] .
  show "cache_ids_ok s'" if "create_fish k name sp now s = Inr (f, s')"
    using that
    by (intro cache_ids_ok_cong[OF assms])
       (auto simp: create_fish_def db_insert_fish_def Let_def aquarium_keys_def split: if_splits)
  show "cache_ids_ok s'" if "remove_fish fid k s = Inr s'"
    using that
    by (intro cache_ids_ok_cong[OF assms])
       (auto simp: remove_fish_def remove_fish_cache_def db_delete_fish_def Let_def
          aquarium_keys_def split: if_splits)
  show "cache_ids_ok s'" if "add_task k knd n now s = Inr (r, s')"
    using that
    by (intro cache_ids_ok_cong[OF assms])
       (auto simp: add_task_def db_upsert_task_def Let_def aquarium_keys_def split: if_splits)
  show "cache_ids_ok s'" if "mark_task_done r now s = Inr s'"
    using that
    by (intro cache_ids_ok_cong[OF assms])
       (auto simp: mark_task_done_def db_upsert_task_def db_update_task_timestamp_def Let_def
          aquarium_keys_def split: option.splits if_splits sum.splits)
qed

lemma cache_ids_ok_demo: "cache_ids_ok demo_engine"
  by (simp add: cache_ids_ok_def demo_engine_def demo_db_def demo_aquarium_def cached_ids_def
      next_rowid_def)

end
